theory Spec2Isabelle
  imports Complex_Main
begin

section \<open>Greedy approximation via energy increment: a model of the notebook\<close>

text \<open>
  The notebook computes with Python integers and IEEE floats. Integers are modelled as
  \<open>int\<close>, floats as \<open>real\<close> (exact arithmetic, no rounding); the two float values
  that are not real numbers and that the code can produce, \<open>inf\<close> and \<open>nan\<close>, are
  written out where they occur, and so is the range of a double in \<open>sample_size\<close>,
  whose powers leave it. Every \<open>raise\<close> of the source is a value of \<open>error\<close>.
\<close>

datatype error =
    ValueError              \<comment> \<open>\<open>raise ValueError\<close>, also the one of \<open>np.argmax\<close> and \<open>math.comb\<close>\<close>
  | ZeroDivisionError
  | OverflowError
  | TypeError               \<comment> \<open>unpacking \<open>None\<close> into a tuple\<close>
  | RecursionError          \<comment> \<open>the interpreter's recursion limit\<close>
  | CannotEvaluate          \<comment> \<open>\<open>Exception("This polynomial cannot be evaluated")\<close>\<close>
  | MaxTriesExceeded        \<comment> \<open>\<open>Exception("Maximum number of tries exceeded")\<close>\<close>
  | NameError               \<comment> \<open>a lambdified expression reads a symbol that is not an argument\<close>
  | IndexError
  | LinAlgError             \<comment> \<open>\<open>np.linalg.inv\<close> of a singular matrix\<close>

subsection \<open>Volume of the ball and surface area of the sphere\<close>

text \<open>
  \<open>ball_volume\<close> starts from \<open>V = 1\<close> and walks the \<open>if\<close>/\<open>elif\<close> chain in the
  source's order: \<open>n == 1\<close>, \<open>n > 1\<close> (recursion on \<open>n - 2\<close>), \<open>n < 0\<close> (raise);
  \<open>n = 0\<close> falls through with \<open>V = 1\<close>.
\<close>

function ball_volume :: "int \<Rightarrow> error + real" where
  "ball_volume n =
     (if n = 1 then Inr 2
      else if n > 1 then
        (case ball_volume (n - 2) of
           Inl e \<Rightarrow> Inl e
         | Inr v \<Rightarrow> Inr ((2 * pi / real_of_int n) * v))
      else if n < 0 then Inl ValueError
      else Inr 1)"
  by pat_completeness auto
termination
  by (relation "measure nat") auto

declare ball_volume.simps [simp del]

definition sphere_surface_area :: "int \<Rightarrow> error + real" where
  "sphere_surface_area n =
     (case ball_volume (n + 1) of
        Inl e \<Rightarrow> Inl e
      | Inr v \<Rightarrow> Inr (real_of_int (n + 1) * v))"

subsection \<open>Polynomials\<close>

text \<open>
  A \<open>custom_polynomial\<close> object holds \<open>num_var\<close>, the symbols \<open>x1 .. xn\<close>
  (determined by \<open>num_var\<close>, not stored here), a sympy expression \<open>expr\<close>, the
  \<open>degree\<close> and the function \<open>f\<close> that \<open>lambdify\<close> compiles from the expression.
  Expressions are syntax trees over the symbols; \<open>Sym i\<close> is the symbol \<open>x(i+1)\<close>.
  Sympy's automatic simplification of an expression is not modelled: it does not change
  the value of the expression at any point.
\<close>

datatype expr =
    Num real
  | Sym nat
  | Add expr expr
  | Sub expr expr
  | Mul expr expr
  | Pow expr nat

definition lift2 :: "(real \<Rightarrow> real \<Rightarrow> real) \<Rightarrow> error + real \<Rightarrow> error + real \<Rightarrow> error + real" where
  "lift2 g a b =
     (case a of Inl e \<Rightarrow> Inl e
      | Inr x \<Rightarrow> (case b of Inl e \<Rightarrow> Inl e | Inr y \<Rightarrow> Inr (g x y)))"

fun eval_expr :: "real list \<Rightarrow> expr \<Rightarrow> error + real" where
  "eval_expr xs (Num c) = Inr c"
| "eval_expr xs (Sym i) = (if i < length xs then Inr (xs ! i) else Inl NameError)"
| "eval_expr xs (Add a b) = lift2 (+) (eval_expr xs a) (eval_expr xs b)"
| "eval_expr xs (Sub a b) = lift2 (-) (eval_expr xs a) (eval_expr xs b)"
| "eval_expr xs (Mul a b) = lift2 (*) (eval_expr xs a) (eval_expr xs b)"
| "eval_expr xs (Pow a d) = (case eval_expr xs a of Inl e \<Rightarrow> Inl e | Inr x \<Rightarrow> Inr (x ^ d))"

text \<open>
  \<open>lambdify(variables, expr)\<close>: a function of exactly \<open>n\<close> arguments; calling it with
  another number of arguments is a \<open>TypeError\<close>.
\<close>

definition lambdify :: "nat \<Rightarrow> expr \<Rightarrow> real list \<Rightarrow> error + real" where
  "lambdify n e = (\<lambda>args. if length args \<noteq> n then Inl TypeError else eval_expr args e)"

record custom_polynomial =
  num_var :: nat
  expr :: expr
  degree :: nat
  f :: "real list \<Rightarrow> error + real"

text \<open>
  The symbolic inner product \<open>Matrix(variables).dot(Matrix(v))\<close>, that is
  \<open>x1*v1 + ... + xn*vn\<close>, built from the left, starting at index \<open>i\<close>.
\<close>

fun dot_expr :: "nat \<Rightarrow> real list \<Rightarrow> expr" where
  "dot_expr i [] = Num 0"
| "dot_expr i (c # cs) = Add (Mul (Sym i) (Num c)) (dot_expr (Suc i) cs)"

text \<open>
  The constructor \<open>custom_polynomial(const, v, d)\<close>, with a non-negative degree.
  For the empty vector \<open>symbols("")\<close> raises a \<open>ValueError\<close>. For a vector of
  length one, \<open>symbols("x1")\<close> is a single symbol and not a tuple, and
  \<open>list(self.variables)\<close> raises a \<open>TypeError\<close>.
\<close>

definition custom_polynomial_init :: "real \<Rightarrow> real list \<Rightarrow> nat \<Rightarrow> error + custom_polynomial" where
  "custom_polynomial_init const v d =
     (if length v = 0 then Inl ValueError
      else if length v = 1 then Inl TypeError
      else let e = Mul (Num const) (Pow (dot_expr 0 v) d)
           in Inr \<lparr> num_var = length v, expr = e, degree = d, f = lambdify (length v) e \<rparr>)"

definition evaluate :: "custom_polynomial \<Rightarrow> real list \<Rightarrow> error + real" where
  "evaluate self w =
     (if num_var self \<noteq> length w then Inl CannotEvaluate else f self w)"

definition evaluate_pol :: "custom_polynomial \<Rightarrow> real list \<Rightarrow> error + real" where
  "evaluate_pol poly v = evaluate poly v"

text \<open>
  \<open>parallelized_evaluation\<close> maps \<open>evaluate_pol\<close> over the rows of \<open>V\<close>, keeping
  their order; the first row that raises makes the call raise.
\<close>

fun parallelized_evaluation :: "custom_polynomial \<Rightarrow> real list list \<Rightarrow> error + real list" where
  "parallelized_evaluation poly [] = Inr []"
| "parallelized_evaluation poly (v # V) =
     (case evaluate_pol poly v of
        Inl e \<Rightarrow> Inl e
      | Inr y \<Rightarrow> (case parallelized_evaluation poly V of
                    Inl e \<Rightarrow> Inl e
                  | Inr ys \<Rightarrow> Inr (y # ys)))"

subsection \<open>Arithmetic on polynomials\<close>

text \<open>
  Each operation makes a shallow copy of its first operand and rebinds \<open>expr\<close> and
  \<open>f\<close> on the copy. On values, this is the content of the new object.
\<close>

definition multiply_constant :: "custom_polynomial \<Rightarrow> real \<Rightarrow> custom_polynomial" where
  "multiply_constant poly constant =
     (let new_poly = poly;
          new_poly = new_poly\<lparr>expr := Mul (Num constant) (expr new_poly)\<rparr>;
          new_poly = new_poly\<lparr>f := lambdify (num_var new_poly) (expr new_poly)\<rparr>
      in new_poly)"

definition add_polynomials :: "custom_polynomial \<Rightarrow> custom_polynomial \<Rightarrow> custom_polynomial" where
  "add_polynomials poly1 poly2 =
     (let new_poly = poly1;
          new_poly = new_poly\<lparr>expr := Add (expr new_poly) (expr poly2)\<rparr>;
          new_poly = new_poly\<lparr>f := lambdify (num_var new_poly) (expr new_poly)\<rparr>
      in new_poly)"

definition sustract_polynomials :: "custom_polynomial \<Rightarrow> custom_polynomial \<Rightarrow> custom_polynomial" where
  "sustract_polynomials poly1 poly2 =
     (let new_poly = poly1;
          new_poly = new_poly\<lparr>expr := Sub (expr new_poly) (expr poly2)\<rparr>;
          new_poly = new_poly\<lparr>f := lambdify (num_var new_poly) (expr new_poly)\<rparr>
      in new_poly)"

text \<open>
  The same three operations on an object store, where a polynomial is a reference and
  two references may name the same object (\<open>sustract_polynomials(poly, poly)\<close> in
  \<open>greedy_approximation\<close>). The store lists the objects in allocation order; a
  reference is an index into it. \<open>copy.copy\<close> allocates a new object with the fields
  of the old one; an attribute assignment updates one object in place.
\<close>

type_synonym ref = nat
type_synonym store = "custom_polynomial list"

definition copy_copy :: "store \<Rightarrow> ref \<Rightarrow> store \<times> ref" where
  "copy_copy h r = (h @ [h ! r], length h)"

definition set_expr :: "store \<Rightarrow> ref \<Rightarrow> expr \<Rightarrow> store" where
  "set_expr h r e = h[r := (h ! r)\<lparr>expr := e\<rparr>]"

definition set_f :: "store \<Rightarrow> ref \<Rightarrow> (real list \<Rightarrow> error + real) \<Rightarrow> store" where
  "set_f h r g = h[r := (h ! r)\<lparr>f := g\<rparr>]"

definition multiply_constant_st :: "store \<Rightarrow> ref \<Rightarrow> real \<Rightarrow> store \<times> ref" where
  "multiply_constant_st h poly constant =
     (let (h, new_poly) = copy_copy h poly;
          h = set_expr h new_poly (Mul (Num constant) (expr (h ! new_poly)));
          h = set_f h new_poly (lambdify (num_var (h ! new_poly)) (expr (h ! new_poly)))
      in (h, new_poly))"

definition add_polynomials_st :: "store \<Rightarrow> ref \<Rightarrow> ref \<Rightarrow> store \<times> ref" where
  "add_polynomials_st h poly1 poly2 =
     (let (h, new_poly) = copy_copy h poly1;
          h = set_expr h new_poly (Add (expr (h ! new_poly)) (expr (h ! poly2)));
          h = set_f h new_poly (lambdify (num_var (h ! new_poly)) (expr (h ! new_poly)))
      in (h, new_poly))"

definition sustract_polynomials_st :: "store \<Rightarrow> ref \<Rightarrow> ref \<Rightarrow> store \<times> ref" where
  "sustract_polynomials_st h poly1 poly2 =
     (let (h, new_poly) = copy_copy h poly1;
          h = set_expr h new_poly (Sub (expr (h ! new_poly)) (expr (h ! poly2)));
          h = set_f h new_poly (lambdify (num_var (h ! new_poly)) (expr (h ! new_poly)))
      in (h, new_poly))"


subsection \<open>Floats that are not real numbers\<close>

text \<open>
  \<open>PInf\<close> is \<open>np.inf\<close> and \<open>NaN\<close> is what numpy returns for a negative base raised
  to a fractional power. A comparison with \<open>NaN\<close> is false.
\<close>

datatype pyfloat = Fin real | PInf | NaN

text \<open>
  \<open>x ** (1/r)\<close> for a numpy float \<open>x\<close> and a positive integer \<open>r\<close>: the \<open>r\<close>-th root
  of a non-negative \<open>x\<close>; \<open>x\<close> itself when \<open>r = 1\<close> (the exponent is \<open>1.0\<close>);
  \<open>nan\<close> for a negative \<open>x\<close> and \<open>r > 1\<close>.
\<close>

definition pow_inv :: "real \<Rightarrow> nat \<Rightarrow> pyfloat" where
  "pow_inv x r = (if 0 \<le> x \<or> r = 1 then Fin (root r x) else NaN)"

text \<open>\<open>0.5 * lrnorm <= abs_fv\<close>\<close>

fun half_le :: "pyfloat \<Rightarrow> real \<Rightarrow> bool" where
  "half_le (Fin l) a = (0.5 * l \<le> a)"
| "half_le PInf a = False"
| "half_le NaN a = False"

text \<open>\<open>error >= eps\<close>, \<open>abs(old_error - error)\<close> and \<open>difference <= tol\<close>\<close>

fun float_ge :: "pyfloat \<Rightarrow> real \<Rightarrow> bool" where
  "float_ge (Fin x) y = (x \<ge> y)"
| "float_ge PInf y = True"
| "float_ge NaN y = False"

fun abs_diff :: "pyfloat \<Rightarrow> pyfloat \<Rightarrow> pyfloat" where
  "abs_diff (Fin x) (Fin y) = Fin \<bar>x - y\<bar>"
| "abs_diff PInf (Fin y) = PInf"
| "abs_diff (Fin x) PInf = PInf"
| "abs_diff (Fin x) NaN = NaN"
| "abs_diff PInf PInf = NaN"
| "abs_diff PInf NaN = NaN"
| "abs_diff NaN b = NaN"

fun float_le :: "pyfloat \<Rightarrow> real \<Rightarrow> bool" where
  "float_le (Fin x) y = (x \<le> y)"
| "float_le PInf y = False"
| "float_le NaN y = False"

subsection \<open>The \<open>L_r\<close>-norm over a cubature rule\<close>

text \<open>
  \<open>WX * evaluations\<close> is numpy's elementwise product of two one-dimensional arrays:
  equal lengths, or one of the two of length one (broadcast); any other pair of shapes
  raises a \<open>ValueError\<close>.
\<close>

definition np_multiply :: "real list \<Rightarrow> real list \<Rightarrow> error + real list" where
  "np_multiply xs ys =
     (if length xs = length ys then Inr (map2 (*) xs ys)
      else if length xs = 1 then Inr (map (\<lambda>y. hd xs * y) ys)
      else if length ys = 1 then Inr (map (\<lambda>x. x * hd ys) xs)
      else Inl ValueError)"

text \<open>
  The module-level \<open>Lr_norm(X, WX, n, r, poly)\<close>. The exponent \<open>r\<close> is a
  non-negative integer here; \<open>1/c\<close> and \<open>1/r\<close> raise on a zero divisor. The
  evaluations are raised to the power \<open>r\<close> as they are.
\<close>

definition Lr_norm :: "real list list \<Rightarrow> real list \<Rightarrow> int \<Rightarrow> nat \<Rightarrow> custom_polynomial \<Rightarrow> error + pyfloat" where
  "Lr_norm X WX n r poly =
     (case sphere_surface_area (n - 1) of
        Inl e \<Rightarrow> Inl e
      | Inr c \<Rightarrow>
          (case parallelized_evaluation poly X of
             Inl e \<Rightarrow> Inl e
           | Inr evaluations \<Rightarrow>
               (let evaluations = map (\<lambda>y. y ^ r) evaluations
                in if c = 0 then Inl ZeroDivisionError
                   else (case np_multiply WX evaluations of
                           Inl e \<Rightarrow> Inl e
                         | Inr prods \<Rightarrow>
                             if r = 0 then Inl ZeroDivisionError
                             else Inr (pow_inv ((1 / c) * sum_list prods) r)))))"

text \<open>
  The method \<open>custom_polynomial.Lr_norm(self, X, WX, r)\<close> has the same body with
  \<open>self.num_var\<close> for \<open>n\<close>.
\<close>

definition custom_polynomial_Lr_norm :: "custom_polynomial \<Rightarrow> real list list \<Rightarrow> real list \<Rightarrow> nat \<Rightarrow> error + pyfloat" where
  "custom_polynomial_Lr_norm self X WX r =
     (case sphere_surface_area (int (num_var self) - 1) of
        Inl e \<Rightarrow> Inl e
      | Inr c \<Rightarrow>
          (case parallelized_evaluation self X of
             Inl e \<Rightarrow> Inl e
           | Inr evaluations \<Rightarrow>
               (let evaluations = map (\<lambda>y. y ^ r) evaluations
                in if c = 0 then Inl ZeroDivisionError
                   else (case np_multiply WX evaluations of
                           Inl e \<Rightarrow> Inl e
                         | Inr prods \<Rightarrow>
                             if r = 0 then Inl ZeroDivisionError
                             else Inr (pow_inv ((1 / c) * sum_list prods) r)))))"

text \<open>
  The norm as the specification words it, over a rule given as a list of
  (node, weight) pairs and a polynomial given by its values:
  \<open>((1/surfaceArea(n-1)) * sum of W(x) * |poly(x)|^r) ^ (1/r)\<close>.
\<close>

definition lrNorm_spec :: "(real list \<Rightarrow> real) \<Rightarrow> (real list \<times> real) list \<Rightarrow> real \<Rightarrow> nat \<Rightarrow> real" where
  "lrNorm_spec p rule area r =
     root r ((1 / area) * (\<Sum>(x, w) \<leftarrow> rule. w * \<bar>p x\<bar> ^ r))"


subsection \<open>Sample size\<close>

text \<open>
  The floats of \<open>sample_size\<close> are doubles. The model keeps their values as exact
  real numbers and their range as it is: a result of magnitude \<open>2^1024\<close> or more does
  not fit. The rounding of a result to 53 bits is not represented, so a value the
  model returns is the value of the Python call up to the rounding of its powers,
  its logarithm and its product; nothing below is stated that depends on it.
\<close>

definition double_limit :: real where
  "double_limit = 2 ^ 1024"

text \<open>
  The value of \<open>x ** y\<close> for a non-negative base and a non-negative float exponent:
  Python has \<open>0 ** 0.0 = 1.0\<close>, where \<open>0 powr 0 = 0\<close>.
\<close>

definition float_pow :: "real \<Rightarrow> real \<Rightarrow> real" where
  "float_pow x y = (if y = 0 then 1 else x powr y)"

text \<open>
  \<open>x ** y\<close> for a Python \<open>int\<close> \<open>x \<ge> 0\<close> and a Python \<open>float\<close> \<open>y \<ge> 0\<close>: the int
  is converted to a float first, which raises an \<open>OverflowError\<close> when it is too
  large, and so does the power when its result is out of range.
\<close>

definition python_pow :: "real \<Rightarrow> real \<Rightarrow> error + real" where
  "python_pow x y =
     (if double_limit \<le> x then Inl OverflowError
      else if double_limit \<le> float_pow x y then Inl OverflowError
      else Inr (float_pow x y))"

text \<open>
  \<open>alpha ** (2*r)\<close> for a numpy float \<open>alpha \<ge> 0\<close>: numpy does not raise, an
  out-of-range result is \<open>inf\<close>.
\<close>

definition np_power :: "real \<Rightarrow> nat \<Rightarrow> pyfloat" where
  "np_power x k = (if double_limit \<le> x ^ k then PInf else Fin (x ^ k))"

text \<open>
  \<open>math.ceil(t * y)\<close> for numpy floats \<open>t\<close> and \<open>y\<close>: the product is infinite when it
  is out of range or when one factor is infinite and the other is not zero, and
  \<open>nan\<close> for zero times infinity; \<open>math.ceil\<close> raises an \<open>OverflowError\<close> on an
  infinity of either sign and a \<open>ValueError\<close> on \<open>nan\<close>.
\<close>

fun ceil_times :: "pyfloat \<Rightarrow> pyfloat \<Rightarrow> error + int" where
  "ceil_times (Fin t) (Fin y) =
     (if double_limit \<le> \<bar>t * y\<bar> then Inl OverflowError else Inr \<lceil>t * y\<rceil>)"
| "ceil_times (Fin t) PInf = (if t = 0 then Inl ValueError else Inl OverflowError)"
| "ceil_times PInf (Fin y) = (if y = 0 then Inl ValueError else Inl OverflowError)"
| "ceil_times PInf PInf = Inl OverflowError"
| "ceil_times NaN y = Inl ValueError"
| "ceil_times (Fin t) NaN = Inl ValueError"
| "ceil_times PInf NaN = Inl ValueError"

text \<open>
  \<open>sample_size(n, deg, r, accu)\<close> with \<open>deg\<close> and \<open>r\<close> non-negative integers, in the
  order of the source: \<open>-np.log(1 - accu)\<close> is \<open>inf\<close> at \<open>accu = 1\<close> and \<open>nan\<close> above;
  \<open>(C*r)**(deg/2)\<close> may raise an \<open>OverflowError\<close>; \<open>math.comb\<close> raises a
  \<open>ValueError\<close> on a negative argument and is zero when the lower argument exceeds
  the upper; \<open>1/(2*r)\<close> raises at \<open>r = 0\<close>; the power of the binomial coefficient may
  raise an \<open>OverflowError\<close>; \<open>np.minimum\<close> of two floats is their minimum.
\<close>

definition sample_size :: "int \<Rightarrow> nat \<Rightarrow> nat \<Rightarrow> real \<Rightarrow> error + int" where
  "sample_size n deg r accu =
     (let C = 2;
          t = (if accu < 1 then Fin (- ln (1 - accu)) else if accu = 1 then PInf else NaN)
      in case python_pow (real (C * r)) (real deg / 2) of
           Inl e \<Rightarrow> Inl e
         | Inr a \<Rightarrow>
             if int (r * deg) + n - 1 < 0 then Inl ValueError
             else if r = 0 then Inl ZeroDivisionError
             else
               (case python_pow (real (nat (int (r * deg) + n - 1) choose (r * deg)))
                       (1 / (2 * real r)) of
                  Inl e \<Rightarrow> Inl e
                | Inr b \<Rightarrow>
                    (let alpha = min a b
                     in ceil_times t (np_power alpha (2 * r)))))"


subsection \<open>Spherical quadrature\<close>

text \<open>
  \<open>custom_flatten\<close> takes a pair \<open>(z, y)\<close> and returns \<open>z\<close> followed by
  \<open>sqrt(1 - z^2) * y\<close>. A node of the one-dimensional rule is a vector of length one.
  The first component is in \<open>[-1, 1]\<close> in every call the quadrature makes (it is a
  root of a Jacobi polynomial); outside that interval \<open>np.sqrt\<close> returns \<open>nan\<close>
  and the model does not apply.
\<close>

definition custom_flatten :: "real \<times> real list \<Rightarrow> real list" where
  "custom_flatten x =
     (let t1 = fst x;
          t2 = map (\<lambda>yi. sqrt (1 - (fst x)\<^sup>2) * yi) (snd x)
      in t1 # t2)"

text \<open>
  \<open>scipy.special.roots_jacobi(deg, alpha, beta)\<close> is a parameter \<open>rj\<close> of the
  model: it returns nodes and weights, or raises. \<open>itertools.product\<close> enumerates the
  pairs with the first component outermost, as \<open>List.product\<close> does.
\<close>

type_synonym roots_jacobi = "nat \<Rightarrow> real \<Rightarrow> real \<Rightarrow> error + (real list \<times> real list)"

function spherical_quadrature :: "roots_jacobi \<Rightarrow> int \<Rightarrow> nat \<Rightarrow> error + (real list list \<times> real list)" where
  "spherical_quadrature rj n deg =
     (let X = [[1], [- 1]];
          WX = [1, 1]
      in if n > 1 then
           (case spherical_quadrature rj (n - 1) deg of
              Inl e \<Rightarrow> Inl e
            | Inr (Y, WY) \<Rightarrow>
                (case rj deg ((real_of_int n - 3) / 2) ((real_of_int n - 3) / 2) of
                   Inl e \<Rightarrow> Inl e
                 | Inr (Z, WZ) \<Rightarrow>
                     Inr (map custom_flatten (List.product Z Y),
                          map (\<lambda>comb. fst comb * snd comb) (List.product WZ WY))))
         else if n < 1 then Inl ValueError
         else Inr (X, WX))"
  by pat_completeness auto
termination
  by (relation "measure (\<lambda>(rj, n, deg). nat n)") auto

declare spherical_quadrature.simps [simp del]

text \<open>
  What the quadrature needs from \<open>roots_jacobi\<close> to build the rule for dimension
  \<open>n\<close>: at each dimension \<open>m\<close> from 2 to \<open>n\<close> it returns \<open>t\<close> nodes in \<open>(-1, 1)\<close>
  with \<open>t\<close> weights.
\<close>

definition jacobi_ok :: "roots_jacobi \<Rightarrow> nat \<Rightarrow> int \<Rightarrow> bool" where
  "jacobi_ok rj t n \<longleftrightarrow>
     (\<forall>m \<in> {2..n}.
        case rj t ((real_of_int m - 3) / 2) ((real_of_int m - 3) / 2) of
          Inl e \<Rightarrow> False
        | Inr (Z, WZ) \<Rightarrow>
            length Z = t \<and> length WZ = t \<and> (\<forall>z \<in> set Z. - 1 < z \<and> z < 1))"


subsection \<open>Sampling and the vector finder\<close>

text \<open>
  \<open>sample_spherical(n, size)\<close> is random. The model takes the generator as a
  parameter \<open>rnd\<close>: \<open>rnd k n size\<close> is the batch that the \<open>k\<close>-th call of the run
  returns, and every function that samples takes the number of calls made so far and
  returns the new number. \<open>np.random.randn\<close> raises on a negative dimension.
\<close>

type_synonym sampler = "nat \<Rightarrow> int \<Rightarrow> int \<Rightarrow> real list list"

definition sample_spherical :: "sampler \<Rightarrow> nat \<Rightarrow> int \<Rightarrow> int \<Rightarrow> error + real list list" where
  "sample_spherical rnd k n size' =
     (if n < 0 \<or> size' < 0 then Inl ValueError else Inr (rnd k n size'))"

definition dot :: "real list \<Rightarrow> real list \<Rightarrow> real" where
  "dot v w = sum_list (map2 (*) v w)"

text \<open>\<open>np.max\<close> and \<open>np.argmax\<close> of a non-empty array; \<open>argmax\<close> is the first position
  of the maximum.\<close>

definition np_max :: "real list \<Rightarrow> real" where
  "np_max xs = fold max (tl xs) (hd xs)"

definition np_argmax :: "real list \<Rightarrow> nat" where
  "np_argmax xs = length (takeWhile (\<lambda>x. x \<noteq> np_max xs) xs)"

text \<open>
  The diversity filter \<open>V[np.max(np.absolute(V @ W.T), axis = 1) < inner, :]\<close> for a
  non-empty \<open>W\<close>; the rows of \<open>V\<close> and of \<open>W\<close> have the same length.
\<close>

definition diversity_filter :: "real list list \<Rightarrow> real list list \<Rightarrow> real \<Rightarrow> real list list" where
  "diversity_filter V W inner =
     filter (\<lambda>v. np_max (map (\<lambda>w. \<bar>dot v w\<bar>) W) < inner) V"

text \<open>
  \<open>vec_finder\<close> returns, with the number of batches drawn, either the tuple
  \<open>(list(v), fv, q, lrnorm)\<close> or \<open>None\<close>: the \<open>else\<close> branch calls \<open>vec_finder\<close>
  again as an expression statement and then falls off the end of the function.
  \<open>np.argmax\<close> of an empty array raises a \<open>ValueError\<close>.
\<close>

type_synonym found = "real list \<times> real \<times> custom_polynomial \<times> pyfloat"

function vec_finder ::
  "sampler \<Rightarrow> nat \<Rightarrow> int \<Rightarrow> nat \<Rightarrow> custom_polynomial \<Rightarrow> custom_polynomial \<Rightarrow> real \<Rightarrow> int
   \<Rightarrow> real \<Rightarrow> real list list \<Rightarrow> real list list \<Rightarrow> real list \<Rightarrow> nat
   \<Rightarrow> error + (found option \<times> nat)" where
  "vec_finder rnd k n r poly projection_poly accu max_size inner W X WX tries =
     (let deg = degree poly in
      case sample_spherical rnd k n max_size of
        Inl e \<Rightarrow> Inl e
      | Inr V \<Rightarrow>
     (let V = (if W \<noteq> [] then diversity_filter V W inner else V);
          poly_diff = sustract_polynomials poly projection_poly in
      case custom_polynomial_Lr_norm poly_diff X WX r of
        Inl e \<Rightarrow> Inl e
      | Inr lrnorm \<Rightarrow>
     (case parallelized_evaluation poly_diff V of
        Inl e \<Rightarrow> Inl e
      | Inr fV \<Rightarrow>
     (let abs_fV = map abs fV in
      if abs_fV = [] then Inl ValueError
      else
     (let max_position = np_argmax abs_fV;
          v = V ! max_position;
          fv = fV ! max_position;
          abs_fv = np_max abs_fV;
          max_tries = 10 in
      if half_le lrnorm abs_fv then
        (case custom_polynomial_init 1 v deg of
           Inl e \<Rightarrow> Inl e
         | Inr q \<Rightarrow> Inr (Some (v, fv, q, lrnorm), Suc k))
      else
        (let tries' = tries + 1 in
         if tries' \<le> max_tries then
           (case vec_finder rnd (Suc k) n r poly projection_poly accu max_size inner W X WX tries' of
              Inl e \<Rightarrow> Inl e
            | Inr (ignored, k') \<Rightarrow> Inr (None, k'))
         else Inl MaxTriesExceeded))))))"
  by pat_completeness auto
termination
  by (relation "measure (\<lambda>(rnd, k, n, r, poly, projection_poly, accu, max_size, inner, W, X, WX, tries). 11 - tries)")
     auto

declare vec_finder.simps [simp del]

subsection \<open>The Gram matrix, its rank and its inverse\<close>

text \<open>
  \<open>np.power(np.matrix(new_W) @ np.matrix(new_W).T, deg)\<close>: the entry at \<open>(i, j)\<close> is
  \<open>(w_i . w_j) ^ deg\<close>.
\<close>

definition gram :: "real list list \<Rightarrow> nat \<Rightarrow> real list list" where
  "gram new_W deg = map (\<lambda>wi. map (\<lambda>wj. (dot wi wj) ^ deg) new_W) new_W"

text \<open>
  \<open>np.linalg.matrix_rank\<close> in exact arithmetic, by Gaussian elimination on the
  columns from the left: the first row with a non-zero head is the pivot, it is removed
  and subtracted from the others.
\<close>

definition eliminate :: "real list \<Rightarrow> real list \<Rightarrow> real list" where
  "eliminate p row = map2 (\<lambda>a b. b - (hd row / hd p) * a) (tl p) (tl row)"

fun rank_columns :: "nat \<Rightarrow> real list list \<Rightarrow> nat" where
  "rank_columns 0 rows = 0"
| "rank_columns (Suc c) rows =
     (case filter (\<lambda>row. hd row \<noteq> 0) rows of
        [] \<Rightarrow> rank_columns c (map tl rows)
      | p # others \<Rightarrow> Suc (rank_columns c (map (eliminate p) (remove1 p rows))))"

definition matrix_rank :: "real list list \<Rightarrow> nat" where
  "matrix_rank M = (case M of [] \<Rightarrow> 0 | row # rows \<Rightarrow> rank_columns (length row) M)"

text \<open>
  \<open>np.linalg.inv\<close> in exact arithmetic: the transposed matrix of cofactors divided by
  the determinant (expansion along the first row); a singular matrix raises.
\<close>

definition drop_nth :: "nat \<Rightarrow> 'a list \<Rightarrow> 'a list" where
  "drop_nth j xs = take j xs @ drop (Suc j) xs"

function det :: "real list list \<Rightarrow> real" where
  "det [] = 1"
| "det (row # rows) =
     (\<Sum>j \<leftarrow> [0..<length row]. (- 1) ^ j * (row ! j) * det (map (drop_nth j) rows))"
  by pat_completeness auto
termination
  by (relation "measure length") auto

definition matrix_inv :: "real list list \<Rightarrow> error + real list list" where
  "matrix_inv M =
     (if det M = 0 then Inl LinAlgError
      else Inr (map (\<lambda>i. map (\<lambda>j. (- 1) ^ (i + j) * det (map (drop_nth i) (drop_nth j M)) / det M)
                          [0..<length M])
                [0..<length M]))"

definition mat_vec :: "real list list \<Rightarrow> real list \<Rightarrow> real list" where
  "mat_vec M x = map (\<lambda>row. dot row x) M"


subsection \<open>Adding a vector to the basis\<close>

text \<open>
  \<open>add_vector\<close> appends to the lists \<open>W\<close>, \<open>fW\<close> and \<open>Q\<close> of its caller in
  place. The model returns the contents of the three lists when the call ends, the
  value of the call, and the number of batches drawn. The value is the pair
  \<open>(lrnorm, projection_poly)\<close> that the returned tuple carries next to the three
  lists, or \<open>None\<close>: on a singular matrix the function calls itself as an expression
  statement and falls off the end. Unpacking the \<open>None\<close> of \<open>vec_finder\<close> raises a
  \<open>TypeError\<close>. The first argument is the number of nested calls the interpreter
  still allows.
\<close>

type_synonym basis = "real list list \<times> real list \<times> custom_polynomial list"

fun add_vector ::
  "nat \<Rightarrow> sampler \<Rightarrow> nat \<Rightarrow> real list list \<Rightarrow> real list \<Rightarrow> custom_polynomial list
   \<Rightarrow> real list list \<Rightarrow> real list \<Rightarrow> int \<Rightarrow> nat \<Rightarrow> custom_polynomial \<Rightarrow> custom_polynomial
   \<Rightarrow> int \<Rightarrow> real \<Rightarrow> real
   \<Rightarrow> error + (basis \<times> (pyfloat \<times> custom_polynomial) option \<times> nat)" where
  "add_vector 0 rnd k W fW Q X WX n r poly projection_poly max_size inner accu =
     Inl RecursionError"
| "add_vector (Suc depth) rnd k W fW Q X WX n r poly projection_poly max_size inner accu =
     (case vec_finder rnd k n r poly projection_poly accu max_size inner W X WX 1 of
        Inl e \<Rightarrow> Inl e
      | Inr (None, k') \<Rightarrow> Inl TypeError
      | Inr (Some (v, fv, q, lrnorm), k') \<Rightarrow>
          (let deg = degree poly;
               new_W = W @ [v];
               matrix = gram new_W deg;
               rank = matrix_rank matrix in
           if rank \<noteq> length matrix then
             (case add_vector depth rnd k' W fW Q X WX n r poly projection_poly max_size inner accu of
                Inl e \<Rightarrow> Inl e
              | Inr (bas, ignored, k'') \<Rightarrow> Inr (bas, None, k''))
           else
             (let W = W @ [v];
                  fW = fW @ [fv];
                  Q = Q @ [q] in
              case matrix_inv matrix of
                Inl e \<Rightarrow> Inl e
              | Inr inv_matrix \<Rightarrow>
                  if length fW \<noteq> length matrix then Inl ValueError
                  else
                    (let B = mat_vec inv_matrix fW in
                     if length B < length Q then Inl IndexError
                     else
                       (let projection_poly =
                              foldl (\<lambda>p i. add_polynomials p (multiply_constant (Q ! i) (B ! i)))
                                (multiply_constant (Q ! 0) (B ! 0)) [1..<length Q]
                        in Inr ((W, fW, Q), Some (lrnorm, projection_poly), k'))))))"

subsection \<open>The greedy loop\<close>

text \<open>
  The values that \<open>greedy_approximation\<close> fixes before the loop, and the variables
  that the loop updates. The function returns \<open>projection_poly\<close>; the model returns
  the whole final state and the way the loop ended: the \<open>while\<close> condition
  \<open>error >= eps\<close> was false, or one of the two \<open>break\<close> statements ran
  ("Maximum number of iteration reached", "Number of iteration exceeded").
\<close>

record config =
  cfg_rnd :: sampler
  cfg_depth :: nat
  cfg_X :: "real list list"
  cfg_WX :: "real list"
  cfg_n :: int
  cfg_r :: nat
  cfg_poly :: custom_polynomial
  cfg_max_size :: int
  cfg_inner :: real
  cfg_accu :: real
  cfg_eps :: real
  cfg_tol :: real
  cfg_max_iter :: int
  cfg_max_vec :: nat

record gstate =
  st_W :: "real list list"
  st_fW :: "real list"
  st_Q :: "custom_polynomial list"
  st_error :: pyfloat
  st_projection_poly :: custom_polynomial
  st_iteration :: int
  st_draws :: nat

datatype exit_reason = ErrorBelowEps | MaxIterReached | BasisFull

text \<open>One pass through the body of the \<open>while\<close> loop; \<open>None\<close> when the pass ends
  without a \<open>break\<close>.\<close>

definition greedy_body :: "config \<Rightarrow> gstate \<Rightarrow> error + (gstate \<times> exit_reason option)" where
  "greedy_body c s =
     (let old_error = st_error s in
      case add_vector (cfg_depth c) (cfg_rnd c) (st_draws s) (st_W s) (st_fW s) (st_Q s)
             (cfg_X c) (cfg_WX c) (cfg_n c) (cfg_r c) (cfg_poly c) (st_projection_poly s)
             (cfg_max_size c) (cfg_inner c) (cfg_accu c) of
        Inl e \<Rightarrow> Inl e
      | Inr (bas, None, k) \<Rightarrow> Inl TypeError
      | Inr ((W, fW, Q), Some (error', new_projection_poly), k) \<Rightarrow>
          (let difference = abs_diff old_error error';
               s = s\<lparr>st_W := W, st_fW := fW, st_Q := Q, st_error := error',
                      st_projection_poly := new_projection_poly, st_draws := k\<rparr> in
           if float_le difference (cfg_tol c) then
             (let s = s\<lparr>st_error := old_error, st_W := butlast W, st_fW := butlast fW,
                         st_Q := butlast Q, st_iteration := st_iteration s + 1\<rparr> in
              if st_iteration s \<ge> cfg_max_iter c then Inr (s, Some MaxIterReached)
              else if int (length (st_W s)) \<ge> int (cfg_max_vec c) then Inr (s, Some BasisFull)
              else Inr (s, None))
           else
             (if int (length (st_W s)) \<ge> int (cfg_max_vec c) then Inr (s, Some BasisFull)
              else Inr (s, None))))"

function greedy_loop :: "config \<Rightarrow> gstate \<Rightarrow> error + (gstate \<times> exit_reason)" where
  "greedy_loop c s =
     (if float_ge (st_error s) (cfg_eps c) then
        (case greedy_body c s of
           Inl e \<Rightarrow> Inl e
         | Inr (s', Some reason) \<Rightarrow> Inr (s', reason)
         | Inr (s', None) \<Rightarrow> greedy_loop c s')
      else Inr (s, ErrorBelowEps))"
  by pat_completeness auto
termination
proof (relation "measure (\<lambda>(c, s). (cfg_max_vec c - length (st_W s))
                                   + nat (cfg_max_iter c - st_iteration s))")
  show "wf (measure (\<lambda>(c, s). (cfg_max_vec c - length (st_W s))
                                   + nat (cfg_max_iter c - st_iteration s)))"
    by simp
next
  fix c s x s' y
  assume body: "greedy_body c s = Inr x" and x: "(s', y) = x" and y: "y = None"
  have grows: "length W' = Suc (length W)"
    if "add_vector d rnd k W fW Q X WX n r poly pp ms inn acc = Inr ((W', fW', Q'), Some res, k')"
    for d rnd k W fW Q X WX n r poly pp ms inn acc W' fW' Q' res k'
    using that
    by (cases d) (auto simp: Let_def split: sum.splits option.splits prod.splits if_splits)
  from body x y
  have "(cfg_max_vec c - length (st_W s')) + nat (cfg_max_iter c - st_iteration s')
        < (cfg_max_vec c - length (st_W s)) + nat (cfg_max_iter c - st_iteration s)"
    unfolding greedy_body_def
    by (auto simp: Let_def split: sum.splits option.splits prod.splits if_splits
        dest!: grows)
  then show "((c, s'), (c, s)) \<in> measure (\<lambda>(c, s). (cfg_max_vec c - length (st_W s))
                                   + nat (cfg_max_iter c - st_iteration s))"
    by simp
qed

declare greedy_loop.simps [simp del]

text \<open>
  The part of \<open>greedy_approximation\<close> before the loop: \<open>math.comb\<close> raises on a
  negative argument, the quadrature and the sample size may raise, and the loop starts
  with an empty basis, the zero polynomial \<open>poly - poly\<close>, \<open>error = inf\<close> and
  \<open>iteration = 1\<close>.
\<close>

definition greedy_init ::
  "roots_jacobi \<Rightarrow> sampler \<Rightarrow> nat \<Rightarrow> int \<Rightarrow> nat \<Rightarrow> custom_polynomial \<Rightarrow> real \<Rightarrow> real \<Rightarrow> real
   \<Rightarrow> real \<Rightarrow> int \<Rightarrow> error + (config \<times> gstate)" where
  "greedy_init rj rnd depth n r poly accu inner eps tol max_iter =
     (let deg = degree poly in
      if n + int deg - 1 < 0 then Inl ValueError
      else
     (let max_vec = nat (n + int deg - 1) choose deg in
      case spherical_quadrature rj n deg of
        Inl e \<Rightarrow> Inl e
      | Inr (X, WX) \<Rightarrow>
     (let projection_poly = sustract_polynomials poly poly in
      case sample_size n deg r accu of
        Inl e \<Rightarrow> Inl e
      | Inr size' \<Rightarrow>
     (let max_size = min size' 100000 in
      Inr (\<lparr> cfg_rnd = rnd, cfg_depth = depth, cfg_X = X, cfg_WX = WX, cfg_n = n, cfg_r = r,
              cfg_poly = poly, cfg_max_size = max_size, cfg_inner = inner, cfg_accu = accu,
              cfg_eps = eps, cfg_tol = tol, cfg_max_iter = max_iter, cfg_max_vec = max_vec \<rparr>,
           \<lparr> st_W = [], st_fW = [], st_Q = [], st_error = PInf,
              st_projection_poly = projection_poly, st_iteration = 1, st_draws = 0 \<rparr>)))))"

definition greedy_approximation ::
  "roots_jacobi \<Rightarrow> sampler \<Rightarrow> nat \<Rightarrow> int \<Rightarrow> nat \<Rightarrow> custom_polynomial \<Rightarrow> real \<Rightarrow> real \<Rightarrow> real
   \<Rightarrow> real \<Rightarrow> int \<Rightarrow> error + (gstate \<times> exit_reason)" where
  "greedy_approximation rj rnd depth n r poly accu inner eps tol max_iter =
     (case greedy_init rj rnd depth n r poly accu inner eps tol max_iter of
        Inl e \<Rightarrow> Inl e
      | Inr (c, s) \<Rightarrow> greedy_loop c s)"

text \<open>The states at the head of the loop in a run that starts at \<open>s0\<close>.\<close>

inductive iterates :: "config \<Rightarrow> gstate \<Rightarrow> gstate \<Rightarrow> bool" for c s0 where
  start: "iterates c s0 s0"
| pass: "iterates c s0 s \<Longrightarrow> float_ge (st_error s) (cfg_eps c)
         \<Longrightarrow> greedy_body c s = Inr (s', None) \<Longrightarrow> iterates c s0 s'"

code_pred (modes: i \<Rightarrow> i \<Rightarrow> o \<Rightarrow> bool) iterates .


subsection \<open>Example data\<close>

text \<open>
  The polynomial \<open>custom_polynomial(-1, [1, 0], 2)\<close>, that is \<open>-x1^2\<close>, and the
  four-point rule on the circle with nodes on the axes and weights \<open>pi/2\<close>, which is
  exact for degree two.
\<close>

definition neg_square :: custom_polynomial where
  "neg_square =
     \<lparr> num_var = 2, expr = Mul (Num (- 1)) (Pow (dot_expr 0 [1, 0]) 2), degree = 2,
       f = lambdify 2 (Mul (Num (- 1)) (Pow (dot_expr 0 [1, 0]) 2)) \<rparr>"

definition axis_nodes :: "real list list" where
  "axis_nodes = [[1, 0], [0, 1], [- 1, 0], [0, - 1]]"

definition axis_weights :: "real list" where
  "axis_weights = [pi / 2, pi / 2, pi / 2, pi / 2]"


text \<open>
  The answer of \<open>roots_jacobi(2, -1/2, -1/2)\<close>: the two Chebyshev nodes with weights
  \<open>pi/2\<close>. The table has this one entry.
\<close>

definition chebyshev_two :: roots_jacobi where
  "chebyshev_two =
     (\<lambda>t a b. if t = 2 \<and> a = - 1 / 2 \<and> b = - 1 / 2
              then Inr ([- sqrt 2 / 2, sqrt 2 / 2], [pi / 2, pi / 2])
              else Inl ValueError)"


text \<open>
  The polynomial \<open>custom_polynomial(1, [1, 0], 2)\<close>, that is \<open>x1^2\<close>; a generator
  whose first batch is the single direction \<open>(0, 1)\<close> and whose later batches are the
  single direction \<open>(1, 0)\<close>; a generator whose batches are all \<open>(0, 1)\<close>; and the residual of \<open>x1^2\<close> against the zero
  polynomial \<open>x1^2 - x1^2\<close> that \<open>greedy_approximation\<close> starts from.
\<close>

definition x1_square :: custom_polynomial where
  "x1_square =
     \<lparr> num_var = 2, expr = Mul (Num 1) (Pow (dot_expr 0 [1, 0]) 2), degree = 2,
       f = lambdify 2 (Mul (Num 1) (Pow (dot_expr 0 [1, 0]) 2)) \<rparr>"

definition two_batches :: sampler where
  "two_batches k n size' = (if k = 0 then [[0, 1]] else [[1, 0]])"

definition always_orthogonal :: sampler where
  "always_orthogonal k n size' = [[0, 1]]"

definition residual0 :: custom_polynomial where
  "residual0 = sustract_polynomials x1_square (sustract_polynomials x1_square x1_square)"


text \<open>
  A run of \<open>greedy_approximation\<close> on the circle: the polynomial
  \<open>x1^2 + x2^2\<close>, built with \<open>add_polynomials\<close> from two rank-one terms; the nodes
  that the quadrature returns for \<open>n = 2\<close> and degree 2; the projections after the
  first and after the second pass of the loop.
\<close>

definition x2_square :: custom_polynomial where
  "x2_square =
     \<lparr> num_var = 2, expr = Mul (Num 1) (Pow (dot_expr 0 [0, 1]) 2), degree = 2,
       f = lambdify 2 (Mul (Num 1) (Pow (dot_expr 0 [0, 1]) 2)) \<rparr>"

definition circle_poly :: custom_polynomial where
  "circle_poly = add_polynomials x1_square x2_square"

definition diagonal_nodes :: "real list list" where
  "diagonal_nodes =
     [[- (sqrt 2 / 2), sqrt 2 / 2], [- (sqrt 2 / 2), - (sqrt 2 / 2)],
      [sqrt 2 / 2, sqrt 2 / 2], [sqrt 2 / 2, - (sqrt 2 / 2)]]"

definition first_projection :: custom_polynomial where
  "first_projection = multiply_constant x2_square 1"

definition second_projection :: custom_polynomial where
  "second_projection =
     add_polynomials (multiply_constant x2_square 1) (multiply_constant x1_square 1)"

text \<open>
  The configuration of that run (\<open>r = 2\<close>, \<open>accu = 0.95\<close>, \<open>inner = 0.8\<close>,
  \<open>eps = 0.3\<close>, \<open>tol = 0.6\<close>, \<open>max_iter = 1000\<close>), and its states at the head of
  the loop: at the start, after the first pass and after the second pass.
\<close>

definition example_config :: "nat \<Rightarrow> int \<Rightarrow> config" where
  "example_config d ms =
     \<lparr> cfg_rnd = two_batches, cfg_depth = Suc d, cfg_X = diagonal_nodes, cfg_WX = axis_weights,
       cfg_n = 2, cfg_r = 2, cfg_poly = circle_poly, cfg_max_size = ms, cfg_inner = 4 / 5,
       cfg_accu = 19 / 20, cfg_eps = 3 / 10, cfg_tol = 3 / 5, cfg_max_iter = 1000,
       cfg_max_vec = 3 \<rparr>"

definition state_start :: gstate where
  "state_start =
     \<lparr> st_W = [], st_fW = [], st_Q = [], st_error = PInf,
       st_projection_poly = sustract_polynomials circle_poly circle_poly,
       st_iteration = 1, st_draws = 0 \<rparr>"

definition state_first :: gstate where
  "state_first =
     \<lparr> st_W = [[0, 1]], st_fW = [1], st_Q = [x2_square], st_error = Fin 1,
       st_projection_poly = first_projection, st_iteration = 1, st_draws = 1 \<rparr>"

definition state_second :: gstate where
  "state_second =
     \<lparr> st_W = [[0, 1]], st_fW = [1], st_Q = [x2_square], st_error = Fin 1,
       st_projection_poly = second_projection, st_iteration = 2, st_draws = 2 \<rparr>"

definition example_max_size :: int where
  "example_max_size =
     (case sample_size 2 2 2 (19 / 20) of Inl e \<Rightarrow> 0 | Inr size' \<Rightarrow> min size' 100000)"

text \<open>
  A call of \<open>add_vector\<close> in three variables: the polynomial \<open>x1^2\<close>; the rank-one
  polynomial \<open>custom_polynomial(1, v, 2)\<close> of a direction; the six-point rule on the
  sphere with nodes on the axes and weights \<open>2 pi / 3\<close>; a basis of three unit
  directions in the plane \<open>x3 = 0\<close>, which span the quadratic forms of that plane;
  and a generator whose first batch is a fourth unit direction in that plane and whose
  later batches are a unit direction outside it.
\<close>

definition x1_square3 :: custom_polynomial where
  "x1_square3 =
     \<lparr> num_var = 3, expr = Mul (Num 1) (Pow (dot_expr 0 [1, 0, 0]) 2), degree = 2,
       f = lambdify 3 (Mul (Num 1) (Pow (dot_expr 0 [1, 0, 0]) 2)) \<rparr>"

definition rank_one :: "real list \<Rightarrow> custom_polynomial" where
  "rank_one v =
     \<lparr> num_var = length v, expr = Mul (Num 1) (Pow (dot_expr 0 v) 2), degree = 2,
       f = lambdify (length v) (Mul (Num 1) (Pow (dot_expr 0 v) 2)) \<rparr>"

definition octahedron_nodes :: "real list list" where
  "octahedron_nodes = [[1, 0, 0], [- 1, 0, 0], [0, 1, 0], [0, - 1, 0], [0, 0, 1], [0, 0, - 1]]"

definition octahedron_weights :: "real list" where
  "octahedron_weights = [2 * pi / 3, 2 * pi / 3, 2 * pi / 3, 2 * pi / 3, 2 * pi / 3, 2 * pi / 3]"

definition planar_W :: "real list list" where
  "planar_W = [[1, 0, 0], [0, 1, 0], [3 / 5, 4 / 5, 0]]"

definition planar_fW :: "real list" where
  "planar_fW = [1, 0, 9 / 25]"

definition planar_Q :: "custom_polynomial list" where
  "planar_Q = map rank_one planar_W"

definition planar_candidate :: "real list" where
  "planar_candidate = [- 3 / 5, 4 / 5, 0]"

definition lifted_candidate :: "real list" where
  "lifted_candidate = [3 / 5, 0, 4 / 5]"

definition planar_then_lifted :: sampler where
  "planar_then_lifted k n size' = (if k = 0 then [planar_candidate] else [lifted_candidate])"

section \<open>Properties\<close>

subsection \<open>Ball volume and surface area\<close>

lemma ball_volume_defined: "0 \<le> n \<Longrightarrow> \<exists>v. ball_volume n = Inr v \<and> 0 < v"
proof (induction n rule: ball_volume.induct)
  case (1 n)
  show ?case
  proof (cases "n > 1")
    case True
    with "1.IH" obtain v where v: "ball_volume (n - 2) = Inr v" "0 < v"
      by fastforce
    from True v show ?thesis
      by (subst ball_volume.simps) simp
  next
    case False
    with "1.prems" have "n = 0 \<or> n = 1" by arith
    then show ?thesis
      by (auto simp: ball_volume.simps [of 0] ball_volume.simps [of 1])
  qed
qed

text \<open>
  C8. \<open>volume(0) = 1\<close>, \<open>volume(1) = 2\<close>, \<open>volume(k) = (2 pi / k) * volume(k - 2)\<close> for
  every \<open>k > 1\<close>, and \<open>surfaceArea(k) = (k + 1) * volume(k + 1)\<close> for every \<open>k \<ge> 0\<close>;
  none of these calls raises.
\<close>

theorem ball_volume_recurrence:
  "ball_volume 0 = Inr 1 \<and> ball_volume 1 = Inr 2
   \<and> (\<forall>k > 1. \<exists>v. ball_volume (k - 2) = Inr v
                 \<and> ball_volume k = Inr ((2 * pi / real_of_int k) * v))
   \<and> (\<forall>k \<ge> 0. \<exists>v. ball_volume (k + 1) = Inr v
                 \<and> sphere_surface_area k = Inr (real_of_int (k + 1) * v))"
proof (intro conjI allI impI)
  show "ball_volume 0 = Inr 1" by (simp add: ball_volume.simps [of 0])
  show "ball_volume 1 = Inr 2" by (simp add: ball_volume.simps [of 1])
next
  fix k :: int assume k: "1 < k"
  then obtain v where v: "ball_volume (k - 2) = Inr v"
    using ball_volume_defined [of "k - 2"] by auto
  with k have "ball_volume k = Inr ((2 * pi / real_of_int k) * v)"
    by (subst ball_volume.simps) simp
  with v show "\<exists>v. ball_volume (k - 2) = Inr v
      \<and> ball_volume k = Inr ((2 * pi / real_of_int k) * v)" by blast
next
  fix k :: int assume k: "0 \<le> k"
  then obtain v where v: "ball_volume (k + 1) = Inr v"
    using ball_volume_defined [of "k + 1"] by auto
  then show "\<exists>v. ball_volume (k + 1) = Inr v
      \<and> sphere_surface_area k = Inr (real_of_int (k + 1) * v)"
    by (simp add: sphere_surface_area_def)
qed

theorem ball_volume_recurrence_witness:
  "(1::int) < 2 \<and> ball_volume 2 = Inr pi \<and> (0::int) \<le> 1
   \<and> sphere_surface_area 1 = Inr (2 * pi)"
proof -
  from ball_volume_recurrence have v0: "ball_volume 0 = Inr 1"
    and step: "\<forall>k > 1. \<exists>v. ball_volume (k - 2) = Inr v
                 \<and> ball_volume k = Inr ((2 * pi / real_of_int k) * v)"
    and area: "\<forall>k \<ge> 0. \<exists>v. ball_volume (k + 1) = Inr v
                 \<and> sphere_surface_area k = Inr (real_of_int (k + 1) * v)"
    by blast+
  from step [rule_format, of 2] v0 have v2: "ball_volume 2 = Inr pi" by auto
  from area [rule_format, of 1] v2 have "sphere_surface_area 1 = Inr (2 * pi)" by auto
  with v2 show ?thesis by simp
qed

subsection \<open>Arithmetic leaves its operands alone\<close>

text \<open>
  C9. On a store \<open>h\<close> with operands \<open>p1\<close> and \<open>p2\<close> (which may be the same object),
  scaling, adding and subtracting each return a reference that is not a reference of
  \<open>h\<close>, to an object that carries the combined expression and its lambdified
  function; every object of \<open>h\<close>, the operands among them, is in the new store what it
  was in the old one, expression and evaluator included.
\<close>

theorem arithmetic_new_instance:
  assumes "p1 < length h" and "p2 < length h"
  shows "(case multiply_constant_st h p1 c of (h', new) \<Rightarrow>
            new \<notin> {0..<length h} \<and> new < length h'
          \<and> h' ! new = multiply_constant (h ! p1) c
          \<and> expr (h' ! new) = Mul (Num c) (expr (h ! p1))
          \<and> expr (h' ! p1) = expr (h ! p1) \<and> f (h' ! p1) = f (h ! p1)
          \<and> (\<forall>r < length h. h' ! r = h ! r))
       \<and> (case add_polynomials_st h p1 p2 of (h', new) \<Rightarrow>
            new \<notin> {0..<length h} \<and> new < length h'
          \<and> h' ! new = add_polynomials (h ! p1) (h ! p2)
          \<and> expr (h' ! new) = Add (expr (h ! p1)) (expr (h ! p2))
          \<and> expr (h' ! p1) = expr (h ! p1) \<and> f (h' ! p1) = f (h ! p1)
          \<and> expr (h' ! p2) = expr (h ! p2) \<and> f (h' ! p2) = f (h ! p2)
          \<and> (\<forall>r < length h. h' ! r = h ! r))
       \<and> (case sustract_polynomials_st h p1 p2 of (h', new) \<Rightarrow>
            new \<notin> {0..<length h} \<and> new < length h'
          \<and> h' ! new = sustract_polynomials (h ! p1) (h ! p2)
          \<and> expr (h' ! new) = Sub (expr (h ! p1)) (expr (h ! p2))
          \<and> expr (h' ! p1) = expr (h ! p1) \<and> f (h' ! p1) = f (h ! p1)
          \<and> expr (h' ! p2) = expr (h ! p2) \<and> f (h' ! p2) = f (h ! p2)
          \<and> (\<forall>r < length h. h' ! r = h ! r))"
  using assms
  by (simp add: multiply_constant_st_def add_polynomials_st_def sustract_polynomials_st_def
      copy_copy_def set_expr_def set_f_def multiply_constant_def add_polynomials_def
      sustract_polynomials_def nth_append Let_def)

theorem arithmetic_new_instance_witness:
  "(0::nat) < length [neg_square] \<and>
   (case sustract_polynomials_st [neg_square] 0 0 of (h', new) \<Rightarrow>
      new = 1 \<and> length h' = 2 \<and> h' ! 0 = neg_square
    \<and> expr (h' ! 1) = Sub (expr neg_square) (expr neg_square))"
proof -
  have len: "(0::nat) < length [neg_square]" by simp
  note sub = arithmetic_new_instance [OF len len, THEN conjunct2, THEN conjunct2]
  have "snd (sustract_polynomials_st [neg_square] 0 0) = 1"
    and "length (fst (sustract_polynomials_st [neg_square] 0 0)) = 2"
    by (simp_all add: sustract_polynomials_st_def copy_copy_def set_expr_def set_f_def)
  with sub show ?thesis
    by (simp add: case_prod_unfold sustract_polynomials_def)
qed

subsection \<open>The norm on an odd exponent\<close>

lemma sphere_surface_area_1: "sphere_surface_area 1 = Inr (2 * pi)"
  by (simp add: sphere_surface_area_def ball_volume.simps [of 2] ball_volume.simps [of 0])

lemma neg_square_on_axes:
  "parallelized_evaluation neg_square axis_nodes = Inr [- 1, 0, - 1, 0]"
  by (simp add: neg_square_def axis_nodes_def evaluate_pol_def evaluate_def lambdify_def
      lift2_def)

lemma sum_list_weighted_nonneg:
  assumes "\<forall>w \<in> set ws. 0 \<le> w"
  shows "0 \<le> (\<Sum>(w, y) \<leftarrow> zip ws ys. w * \<bar>y :: real\<bar> ^ r)"
proof (rule sum_list_nonneg)
  fix x assume "x \<in> set (map (\<lambda>(w, y). w * \<bar>y\<bar> ^ r) (zip ws ys))"
  then obtain w y where "(w, y) \<in> set (zip ws ys)" "x = w * \<bar>y\<bar> ^ r" by auto
  moreover from this assms have "0 \<le> w" by (auto dest: set_zip_leftD)
  ultimately show "0 \<le> x" by simp
qed

text \<open>
  For an even exponent and non-negative weights the code computes the norm of the
  specification: \<open>y^r = |y|^r\<close>, and the sum is not negative.
\<close>

lemma Lr_norm_even_exponent:
  assumes "even r" and "0 < r"
    and "sphere_surface_area (n - 1) = Inr c" and "0 < c"
    and "parallelized_evaluation poly X = Inr ys"
    and "length WX = length ys" and "\<forall>w \<in> set WX. 0 \<le> w"
  shows "Lr_norm X WX n r poly
       = Inr (Fin (root r ((1 / c) * (\<Sum>(w, y) \<leftarrow> zip WX ys. w * \<bar>y\<bar> ^ r))))"
proof -
  have abs_even: "\<bar>y\<bar> ^ r = y ^ r" for y :: real
    using assms(1) by (rule power_even_abs)
  have eq: "map2 (*) WX (map (\<lambda>y. y ^ r) ys) = map (\<lambda>(w, y). w * \<bar>y\<bar> ^ r) (zip WX ys)"
    by (simp add: zip_map2 abs_even case_prod_unfold)
  have "0 \<le> (\<Sum>(w, y) \<leftarrow> zip WX ys. w * \<bar>y\<bar> ^ r)"
    using assms(7) by (rule sum_list_weighted_nonneg)
  then have nonneg: "0 \<le> (1 / c) * (\<Sum>(w, y) \<leftarrow> zip WX ys. w * \<bar>y\<bar> ^ r)"
    using assms(4) by simp
  have "np_multiply WX (map (\<lambda>y. y ^ r) ys)
      = Inr (map (\<lambda>(w, y). w * \<bar>y\<bar> ^ r) (zip WX ys))"
    using assms(6) by (simp add: np_multiply_def eq del: zip_map2)
  with nonneg assms(2,4) show ?thesis
    unfolding Lr_norm_def assms(3,5)
    by (simp add: pow_inv_def Let_def del: sum_list.Cons)
qed

text \<open>
  C1. The norm is to be \<open>((1/surfaceArea(n-1)) * sum of W(x) * |p(x)|^r) ^ (1/r)\<close>, with
  the absolute value for odd \<open>r\<close> too. The code raises the evaluations to the power
  \<open>r\<close> without taking the absolute value. For \<open>p = -x1^2\<close>, built by the constructor,
  the four-point rule on the circle and \<open>r = 1\<close>, both \<open>Lr_norm\<close> functions return
  \<open>-1/2\<close>, where the formula gives \<open>1/2\<close>; for \<open>r = 3\<close> they return \<open>nan\<close>.
\<close>

theorem Lr_norm_odd_exponent:
  "custom_polynomial_init (- 1) [1, 0] 2 = Inr neg_square
   \<and> sphere_surface_area (2 - 1) = Inr (2 * pi)
   \<and> custom_polynomial_Lr_norm neg_square axis_nodes axis_weights 1 = Inr (Fin (- 1 / 2))
   \<and> Lr_norm axis_nodes axis_weights 2 1 neg_square = Inr (Fin (- 1 / 2))
   \<and> custom_polynomial_Lr_norm neg_square axis_nodes axis_weights 3 = Inr NaN
   \<and> Lr_norm axis_nodes axis_weights 2 3 neg_square = Inr NaN
   \<and> lrNorm_spec (\<lambda>x. - ((x ! 0) ^ 2)) (zip axis_nodes axis_weights) (2 * pi) 1 = 1 / 2"
proof -
  have nv: "int (num_var neg_square) - 1 = 1" "(2::int) - 1 = 1"
    by (simp_all add: neg_square_def)
  have "custom_polynomial_init (- 1) [1, 0] 2 = Inr neg_square"
    by (simp add: custom_polynomial_init_def neg_square_def Let_def numeral_2_eq_2)
  moreover have "custom_polynomial_Lr_norm neg_square axis_nodes axis_weights 1
      = Inr (Fin (- 1 / 2))"
    unfolding custom_polynomial_Lr_norm_def nv sphere_surface_area_1 neg_square_on_axes
    by (simp add: np_multiply_def pow_inv_def Let_def axis_weights_def)
  moreover have "Lr_norm axis_nodes axis_weights 2 1 neg_square = Inr (Fin (- 1 / 2))"
    unfolding Lr_norm_def nv sphere_surface_area_1 neg_square_on_axes
    by (simp add: np_multiply_def pow_inv_def Let_def axis_weights_def)
  moreover have "custom_polynomial_Lr_norm neg_square axis_nodes axis_weights 3 = Inr NaN"
    unfolding custom_polynomial_Lr_norm_def nv sphere_surface_area_1 neg_square_on_axes
    by (simp add: np_multiply_def pow_inv_def Let_def axis_weights_def)
  moreover have "Lr_norm axis_nodes axis_weights 2 3 neg_square = Inr NaN"
    unfolding Lr_norm_def nv sphere_surface_area_1 neg_square_on_axes
    by (simp add: np_multiply_def pow_inv_def Let_def axis_weights_def)
  moreover have "lrNorm_spec (\<lambda>x. - ((x ! 0) ^ 2)) (zip axis_nodes axis_weights) (2 * pi) 1
      = 1 / 2"
    by (simp add: lrNorm_spec_def axis_nodes_def axis_weights_def)
  ultimately show ?thesis
    using sphere_surface_area_1 by simp
qed

subsection \<open>The sample size\<close>

lemma float_pow_nonneg: "0 \<le> float_pow x y"
  by (simp add: float_pow_def)

lemma sample_size_returns:
  assumes "r \<noteq> 0" and "\<not> int (r * deg) + n - 1 < 0" and "accu < 1"
    and "python_pow (real (2 * r)) (real deg / 2) = Inr a"
    and "python_pow (real (nat (int (r * deg) + n - 1) choose (r * deg))) (1 / (2 * real r))
         = Inr b"
    and "(min a b) ^ (2 * r) < double_limit"
    and "\<bar>- ln (1 - accu) * (min a b) ^ (2 * r)\<bar> < double_limit"
  shows "sample_size n deg r accu = Inr \<lceil>- ln (1 - accu) * (min a b) ^ (2 * r)\<rceil>"
  using assms(1-3,6,7) unfolding sample_size_def Let_def assms(4,5)
  by (simp add: np_power_def)











subsection \<open>The quadrature rule\<close>

lemma zip_product_map:
  assumes "length Z = length WZ" "length Y = length WY"
  shows "zip (map F (List.product Z Y)) (map G (List.product WZ WY))
       = concat (map (\<lambda>(z, wz). map (\<lambda>(y, wy). (F (z, y), G (wz, wy))) (zip Y WY)) (zip Z WZ))"
  using assms(1)
proof (induction Z WZ rule: list_induct2)
  case Nil
  then show ?case by simp
next
  case (Cons z Z wz WZ)
  have "zip (map F (map (Pair z) Y)) (map G (map (Pair wz) WY))
      = map (\<lambda>(y, wy). (F (z, y), G (wz, wy))) (zip Y WY)"
    by (simp add: zip_map_map comp_def)
  with Cons assms(2) show ?case
    by (simp add: zip_append)
qed

lemma jacobi_ok_less: "jacobi_ok rj t (n + 1) \<Longrightarrow> jacobi_ok rj t n"
  by (simp add: jacobi_ok_def)

lemma jacobi_ok_at:
  assumes "jacobi_ok rj t n" and "2 \<le> m" and "m \<le> n"
  obtains Z WZ where "rj t ((real_of_int m - 3) / 2) ((real_of_int m - 3) / 2) = Inr (Z, WZ)"
    and "length Z = t" and "length WZ = t"
proof -
  from assms have "case rj t ((real_of_int m - 3) / 2) ((real_of_int m - 3) / 2) of
          Inl e \<Rightarrow> False
        | Inr (Z, WZ) \<Rightarrow>
            length Z = t \<and> length WZ = t \<and> (\<forall>z \<in> set Z. - 1 < z \<and> z < 1)"
    by (simp add: jacobi_ok_def)
  then show thesis
    by (auto split: sum.splits prod.splits intro: that)
qed

lemma spherical_quadrature_one: "spherical_quadrature rj 1 t = Inr ([[1], [- 1]], [1, 1])"
  by (simp add: spherical_quadrature.simps [of rj 1])

lemma spherical_quadrature_step:
  assumes "1 < n" "spherical_quadrature rj (n - 1) t = Inr (Y, WY)"
    "rj t ((real_of_int n - 3) / 2) ((real_of_int n - 3) / 2) = Inr (Z, WZ)"
  shows "spherical_quadrature rj n t
       = Inr (map custom_flatten (List.product Z Y),
              map (\<lambda>comb. fst comb * snd comb) (List.product WZ WY))"
  using assms by (subst spherical_quadrature.simps) simp

lemma spherical_quadrature_defined:
  assumes "1 \<le> n" "jacobi_ok rj t n"
  shows "\<exists>X WX. spherical_quadrature rj n t = Inr (X, WX) \<and> length X = length WX
           \<and> length X = 2 * t ^ nat (n - 1) \<and> (\<forall>x \<in> set X. length x = nat n)"
  using assms
proof (induction n rule: int_ge_induct)
  case base
  show ?case by (simp add: spherical_quadrature_one)
next
  case (step i)
  from step.prems have "jacobi_ok rj t i" by (rule jacobi_ok_less)
  with step.IH obtain Y WY where Y: "spherical_quadrature rj i t = Inr (Y, WY)"
    "length Y = length WY" "length Y = 2 * t ^ nat (i - 1)" "\<forall>x \<in> set Y. length x = nat i"
    by blast
  from step.hyps step.prems obtain Z WZ where
    Z: "rj t ((real_of_int (i + 1) - 3) / 2) ((real_of_int (i + 1) - 3) / 2) = Inr (Z, WZ)"
      "length Z = t" "length WZ = t"
    by (elim jacobi_ok_at [of rj t "i + 1" "i + 1"]) simp_all
  have "spherical_quadrature rj (i + 1) t
       = Inr (map custom_flatten (List.product Z Y),
              map (\<lambda>comb. fst comb * snd comb) (List.product WZ WY))"
    using step.hyps Y(1) Z(1) by (intro spherical_quadrature_step) simp_all
  moreover have "nat (i + 1 - 1) = Suc (nat (i - 1))" "nat (i + 1) = Suc (nat i)"
    using step.hyps by simp_all
  ultimately show ?case
    using Y Z by (auto simp: custom_flatten_def Let_def)
qed

text \<open>
  C5. With a degree parameter \<open>t\<close> that is even and at least one, and
  \<open>roots_jacobi\<close> answering at the dimensions the recursion visits: for \<open>n = 1\<close> the
  rule is the two nodes \<open>+1\<close> and \<open>-1\<close> with weight one each; for \<open>n > 1\<close> it is
  built from the rule \<open>(Y, WY)\<close> for \<open>(n - 1, t)\<close> and the Gauss-Jacobi rule \<open>(Z, WZ)\<close>
  of order \<open>t\<close> with parameters \<open>((n-3)/2, (n-3)/2)\<close>, and lists for every pair of a
  \<open>z\<close> with its weight and a \<open>y\<close> with its weight, \<open>z\<close> outermost, the node
  \<open>(z, sqrt(1 - z^2) * y)\<close> with the weight \<open>wz * wy\<close>; for \<open>n < 1\<close> it raises a
  \<open>ValueError\<close>.
\<close>

theorem spherical_quadrature_rule:
  assumes "jacobi_ok rj t n" and "even t" and "1 \<le> t"
  shows "(n = 1 \<longrightarrow> spherical_quadrature rj n t = Inr ([[1], [- 1]], [1, 1]))
       \<and> (1 < n \<longrightarrow>
            (\<exists>Y WY Z WZ X WX.
                spherical_quadrature rj (n - 1) t = Inr (Y, WY) \<and> length Y = length WY
              \<and> rj t ((real_of_int n - 3) / 2) ((real_of_int n - 3) / 2) = Inr (Z, WZ)
              \<and> length Z = t \<and> length WZ = t
              \<and> spherical_quadrature rj n t = Inr (X, WX)
              \<and> length X = length Z * length Y \<and> length WX = length X
              \<and> zip X WX =
                  concat (map (\<lambda>(z, wz). map (\<lambda>(y, wy).
                      (z # map (\<lambda>yi. sqrt (1 - z\<^sup>2) * yi) y, wz * wy)) (zip Y WY)) (zip Z WZ))))
       \<and> (n < 1 \<longrightarrow> spherical_quadrature rj n t = Inl ValueError)"
proof (intro conjI impI)
  assume "n = 1"
  then show "spherical_quadrature rj n t = Inr ([[1], [- 1]], [1, 1])"
    by (simp add: spherical_quadrature_one)
next
  assume "n < 1"
  then show "spherical_quadrature rj n t = Inl ValueError"
    by (subst spherical_quadrature.simps) simp
next
  assume n: "1 < n"
  with assms(1) have "jacobi_ok rj t (n - 1)" by (simp add: jacobi_ok_def)
  with n obtain Y WY where Y: "spherical_quadrature rj (n - 1) t = Inr (Y, WY)"
    "length Y = length WY"
    using spherical_quadrature_defined [of "n - 1" rj t] by auto
  from n assms(1) obtain Z WZ where
    Z: "rj t ((real_of_int n - 3) / 2) ((real_of_int n - 3) / 2) = Inr (Z, WZ)"
      "length Z = t" "length WZ = t"
    by (elim jacobi_ok_at [of rj t n n]) simp_all
  let ?X = "map custom_flatten (List.product Z Y)"
  let ?WX = "map (\<lambda>comb. fst comb * snd comb) (List.product WZ WY)"
  have X: "spherical_quadrature rj n t = Inr (?X, ?WX)"
    using n Y(1) Z(1) by (rule spherical_quadrature_step)
  have "zip ?X ?WX =
      concat (map (\<lambda>(z, wz). map (\<lambda>(y, wy).
                      (z # map (\<lambda>yi. sqrt (1 - z\<^sup>2) * yi) y, wz * wy)) (zip Y WY)) (zip Z WZ))"
    using Y(2) Z(2,3) by (simp add: zip_product_map custom_flatten_def Let_def)
  with X Y Z show "\<exists>Y WY Z WZ X WX.
                spherical_quadrature rj (n - 1) t = Inr (Y, WY) \<and> length Y = length WY
              \<and> rj t ((real_of_int n - 3) / 2) ((real_of_int n - 3) / 2) = Inr (Z, WZ)
              \<and> length Z = t \<and> length WZ = t
              \<and> spherical_quadrature rj n t = Inr (X, WX)
              \<and> length X = length Z * length Y \<and> length WX = length X
              \<and> zip X WX =
                  concat (map (\<lambda>(z, wz). map (\<lambda>(y, wy).
                      (z # map (\<lambda>yi. sqrt (1 - z\<^sup>2) * yi) y, wz * wy)) (zip Y WY)) (zip Z WZ))"
    by (intro exI [of _ Y] exI [of _ WY] exI [of _ Z] exI [of _ WZ] exI [of _ ?X] exI [of _ ?WX])
       simp
qed

lemma sqrt_two_less_two: "sqrt 2 < 2"
  by (rule real_less_lsqrt) simp_all

lemma chebyshev_two_ok: "jacobi_ok chebyshev_two 2 2"
proof -
  have "- 2 < sqrt 2" by (rule less_le_trans [of _ 0]) simp_all
  with sqrt_two_less_two show ?thesis
    by (simp add: jacobi_ok_def chebyshev_two_def)
qed

theorem spherical_quadrature_rule_witness:
  "jacobi_ok chebyshev_two 2 2 \<and> even (2::nat) \<and> (1::nat) \<le> 2
   \<and> spherical_quadrature chebyshev_two 1 2 = Inr ([[1], [- 1]], [1, 1])
   \<and> (\<exists>X WX. spherical_quadrature chebyshev_two 2 2 = Inr (X, WX) \<and> length X = 4
        \<and> zip X WX =
            [([- sqrt 2 / 2, sqrt (1 - (- sqrt 2 / 2)\<^sup>2) * 1], pi / 2 * 1),
             ([- sqrt 2 / 2, sqrt (1 - (- sqrt 2 / 2)\<^sup>2) * (- 1)], pi / 2 * 1),
             ([sqrt 2 / 2, sqrt (1 - (sqrt 2 / 2)\<^sup>2) * 1], pi / 2 * 1),
             ([sqrt 2 / 2, sqrt (1 - (sqrt 2 / 2)\<^sup>2) * (- 1)], pi / 2 * 1)])"
proof -
  have h: "even (2::nat)" "(1::nat) \<le> 2" by simp_all
  note rule = spherical_quadrature_rule [OF chebyshev_two_ok h]
  have one: "spherical_quadrature chebyshev_two 1 2 = Inr ([[1], [- 1]], [1, 1])"
    by (simp add: spherical_quadrature.simps [of _ 1])
  from rule [THEN conjunct2, THEN conjunct1]
  obtain Y WY Z WZ X WX where *:
    "spherical_quadrature chebyshev_two (2 - 1) 2 = Inr (Y, WY)"
    "chebyshev_two 2 ((real_of_int 2 - 3) / 2) ((real_of_int 2 - 3) / 2) = Inr (Z, WZ)"
    "spherical_quadrature chebyshev_two 2 2 = Inr (X, WX)"
    "length X = length Z * length Y"
    "zip X WX = concat (map (\<lambda>(z, wz). map (\<lambda>(y, wy).
                      (z # map (\<lambda>yi. sqrt (1 - z\<^sup>2) * yi) y, wz * wy)) (zip Y WY)) (zip Z WZ))"
    by auto
  from *(1) one have Y: "Y = [[1], [- 1]]" "WY = [1, 1]" by simp_all
  from *(2) have Z: "Z = [- sqrt 2 / 2, sqrt 2 / 2]" "WZ = [pi / 2, pi / 2]"
    by (simp_all add: chebyshev_two_def)
  from *(3,4,5) show ?thesis
    unfolding Y Z using chebyshev_two_ok h one by simp
qed

subsection \<open>The vector finder\<close>

lemma residual0_eval: "evaluate_pol residual0 [a, b] = Inr (a\<^sup>2)"
  by (simp add: residual0_def x1_square_def sustract_polynomials_def evaluate_pol_def evaluate_def lambdify_def lift2_def Let_def)

lemma residual0_norm: "custom_polynomial_Lr_norm residual0 axis_nodes axis_weights 2 = Inr (Fin (root 2 (1/2)))"
proof -
  have nv: "int (num_var residual0) - 1 = 1"
    by (simp add: residual0_def x1_square_def sustract_polynomials_def Let_def)
  have ev: "parallelized_evaluation residual0 axis_nodes = Inr [1, 0, 1, 0]"
    by (simp add: axis_nodes_def residual0_eval)
  show ?thesis
    unfolding custom_polynomial_Lr_norm_def nv sphere_surface_area_1 ev
    by (simp add: np_multiply_def pow_inv_def Let_def axis_weights_def)
qed

lemma half_norm: "\<not> root 2 (1/2) \<le> (0::real)" "root 2 (1/2) \<le> (2::real)"
proof -
  show "\<not> root 2 (1/2) \<le> (0::real)" by simp
  have "root 2 (1/2) \<le> (1::real)" by simp
  then show "root 2 (1/2) \<le> (2::real)" by linarith
qed

lemma x1_square_init: "custom_polynomial_init 1 [1, 0] 2 = Inr x1_square"
  by (simp add: custom_polynomial_init_def x1_square_def Let_def numeral_2_eq_2)

lemma x1_square_fields: "degree x1_square = 2" "num_var x1_square = 2"
  by (simp_all add: x1_square_def)

lemma vec_finder_second_batch: "vec_finder two_batches (Suc k) 2 2 x1_square (sustract_polynomials x1_square x1_square) accu 1 inner [] axis_nodes axis_weights tries
  = Inr (Some ([1, 0], 1, x1_square, Fin (root 2 (1/2))), Suc (Suc k))"
  apply (subst vec_finder.simps)
  apply (simp add: residual0_def [symmetric] residual0_norm Let_def sample_spherical_def two_batches_def residual0_eval
      np_max_def np_argmax_def x1_square_init half_norm x1_square_fields)
  done

lemma vec_finder_exhausted:
  "tries \<le> 10 \<Longrightarrow>
   vec_finder always_orthogonal k 2 2 x1_square (sustract_polynomials x1_square x1_square)
       accu 1 inner [] axis_nodes axis_weights tries = Inl MaxTriesExceeded"
proof (induction "10 - tries" arbitrary: tries k)
  case 0
  then have "tries = 10" by simp
  then show ?case
    by (subst vec_finder.simps)
       (simp add: residual0_def [symmetric] residual0_norm Let_def sample_spherical_def
         always_orthogonal_def residual0_eval np_max_def np_argmax_def half_norm)
next
  case (Suc m)
  then have "tries + 1 \<le> 10" "m = 10 - (tries + 1)" by simp_all
  with Suc.hyps(1) [of "tries + 1" "Suc k"]
  have "vec_finder always_orthogonal (Suc k) 2 2 x1_square
          (sustract_polynomials x1_square x1_square) accu 1 inner [] axis_nodes axis_weights
          (tries + 1) = Inl MaxTriesExceeded"
    by simp
  with \<open>tries + 1 \<le> 10\<close> show ?case
    by (subst vec_finder.simps)
       (simp add: residual0_def [symmetric] residual0_norm Let_def sample_spherical_def
         always_orthogonal_def residual0_eval np_max_def np_argmax_def half_norm)
qed

text \<open>
  C2. A call of \<open>vec_finder\<close> is to return the tuple of the first attempt, out of up
  to ten, that meets \<open>|diff(v)| >= lrnorm / 2\<close>. The code returns the tuple only when
  the first attempt meets it. Here the residual is \<open>x1^2\<close> with norm \<open>sqrt(1/2)\<close>: a
  call whose first batch is \<open>(1, 0)\<close> returns the tuple; a call whose first batch is
  \<open>(0, 1)\<close>, where the residual vanishes, and whose second batch is \<open>(1, 0)\<close>,
  returns \<open>None\<close> after two batches. With batches that are all \<open>(0, 1)\<close> the
  call raises the exception of the exceeded tries.
\<close>

theorem vec_finder_retry_returns_none:
  "vec_finder two_batches 1 2 2 x1_square (sustract_polynomials x1_square x1_square)
       (19 / 20) 1 (4 / 5) [] axis_nodes axis_weights 1
     = Inr (Some ([1, 0], 1, x1_square, Fin (root 2 (1 / 2))), 2)
   \<and> vec_finder two_batches 0 2 2 x1_square (sustract_polynomials x1_square x1_square)
       (19 / 20) 1 (4 / 5) [] axis_nodes axis_weights 1
     = Inr (None, 2)
   \<and> vec_finder always_orthogonal 0 2 2 x1_square (sustract_polynomials x1_square x1_square)
       (19 / 20) 1 (4 / 5) [] axis_nodes axis_weights 1
     = Inl MaxTriesExceeded"
proof -
  have "vec_finder two_batches 0 2 2 x1_square (sustract_polynomials x1_square x1_square)
       (19 / 20) 1 (4 / 5) [] axis_nodes axis_weights 1 = Inr (None, 2)"
    by (subst vec_finder.simps)
       (simp add: vec_finder_second_batch residual0_def [symmetric] residual0_norm Let_def
         sample_spherical_def two_batches_def residual0_eval np_max_def np_argmax_def half_norm)
  with vec_finder_second_batch [of 0 "19 / 20" "4 / 5" 1]
    vec_finder_exhausted [of 1 0 "19 / 20" "4 / 5"]
  show ?thesis
    by (simp add: numeral_2_eq_2)
qed

lemma np_max_ge: "x \<in> set xs \<Longrightarrow> x \<le> np_max xs"
proof -
  assume x: "x \<in> set xs"
  then obtain y ys where xs: "xs = y # ys" by (cases xs) auto
  have "np_max xs = Max (set xs)"
    unfolding xs np_max_def by (simp only: list.sel Max.set_eq_fold)
  with x show ?thesis by simp
qed

lemma diversity_filter_empty:
  assumes "\<forall>v \<in> set V. \<exists>w \<in> set W. inner \<le> \<bar>dot v w\<bar>"
  shows "diversity_filter V W inner = []"
proof -
  have "\<not> np_max (map (\<lambda>w. \<bar>dot v w\<bar>) W) < inner" if "v \<in> set V" for v
  proof -
    from assms that obtain w where w: "w \<in> set W" "inner \<le> \<bar>dot v w\<bar>" by blast
    then have "\<bar>dot v w\<bar> \<le> np_max (map (\<lambda>w. \<bar>dot v w\<bar>) W)"
      by (intro np_max_ge) simp
    with w(2) show ?thesis by linarith
  qed
  then show ?thesis
    by (simp add: diversity_filter_def filter_empty_conv)
qed

text \<open>
  C10. When the basis \<open>W\<close> is not empty and every sampled direction has an absolute
  inner product of at least \<open>inner\<close> with some direction of \<open>W\<close>, no candidate is
  left and \<open>vec_finder\<close> raises, whatever the number of tries so far: it does not
  resample. When the norm of the residual does not raise, the error is a
  \<open>ValueError\<close>: that of \<open>np.argmax\<close> on an empty array (or, on a negative
  \<open>n\<close> or \<open>max_size\<close>, that of the generator).
\<close>

theorem vec_finder_no_candidate:
  assumes "W \<noteq> []"
    and "\<forall>v \<in> set (rnd k n max_size). \<exists>w \<in> set W. inner \<le> \<bar>dot v w\<bar>"
  shows "(\<exists>e. vec_finder rnd k n r poly projection_poly accu max_size inner W X WX tries = Inl e)
       \<and> (\<forall>l. custom_polynomial_Lr_norm (sustract_polynomials poly projection_poly) X WX r = Inr l
              \<longrightarrow> vec_finder rnd k n r poly projection_poly accu max_size inner W X WX tries
                  = Inl ValueError)"
proof -
  from assms(2) have empty: "diversity_filter (rnd k n max_size) W inner = []"
    by (rule diversity_filter_empty)
  show ?thesis
    using assms(1) empty
    by (subst (1 2) vec_finder.simps)
       (auto simp: sample_spherical_def Let_def split: sum.splits)
qed

theorem vec_finder_no_candidate_witness:
  "[[1, 0]] \<noteq> ([] :: real list list)
   \<and> two_batches 1 2 1 = [[1, 0]] \<and> 4 / 5 \<le> \<bar>dot [1, 0] [1, 0]\<bar>
   \<and> vec_finder two_batches 1 2 2 x1_square (sustract_polynomials x1_square x1_square)
         (19 / 20) 1 (4 / 5) [[1, 0]] axis_nodes axis_weights 1 = Inl ValueError"
proof -
  have h: "[[1, 0]] \<noteq> ([] :: real list list)"
    "\<forall>v \<in> set (two_batches 1 2 1). \<exists>w \<in> set [[1, 0]]. 4 / 5 \<le> \<bar>dot v w\<bar>"
    by (simp_all add: two_batches_def dot_def)
  note inst = vec_finder_no_candidate [where W = "[[1, 0]]" and n = 2 and max_size = 1
      and rnd = two_batches and k = 1 and inner = "4 / 5" and poly = x1_square
      and projection_poly = "sustract_polynomials x1_square x1_square" and X = axis_nodes
      and WX = axis_weights and r = 2 and accu = "19 / 20" and tries = 1, OF h]
  have "two_batches 1 2 1 = [[1, 0]]" "4 / 5 \<le> \<bar>dot [1, 0] [1, 0]\<bar>"
    by (simp_all add: two_batches_def dot_def)
  with inst [THEN conjunct2] residual0_norm
  show ?thesis by (simp add: residual0_def)
qed

lemma np_max_in: "xs \<noteq> [] \<Longrightarrow> np_max xs \<in> set xs"
proof -
  assume "xs \<noteq> []"
  then obtain y ys where xs: "xs = y # ys" by (cases xs) auto
  have "np_max xs = Max (set xs)"
    unfolding xs np_max_def by (simp only: list.sel Max.set_eq_fold)
  moreover have "Max (set xs) \<in> set xs"
    using \<open>xs \<noteq> []\<close> by (intro Max_in) simp_all
  ultimately show ?thesis by simp
qed

lemma np_argmax_max:
  assumes "xs \<noteq> []"
  shows "np_argmax xs < length xs \<and> xs ! np_argmax xs = np_max xs"
proof -
  let ?P = "\<lambda>x. x \<noteq> np_max xs"
  from assms have "np_max xs \<in> set xs" by (rule np_max_in)
  then have "takeWhile ?P xs \<noteq> xs"
    by (auto simp: takeWhile_eq_all_conv)
  then have "length (takeWhile ?P xs) \<noteq> length xs"
    by (metis takeWhile_eq_take take_all order_refl)
  with length_takeWhile_le [of ?P xs] have lt: "length (takeWhile ?P xs) < length xs"
    by linarith
  from nth_length_takeWhile [OF lt] lt show ?thesis
    by (simp add: np_argmax_def)
qed

lemma vec_finder_some_first_attempt:
  assumes "vec_finder rnd k n r poly projection_poly accu max_size inner W X WX tries
            = Inr (Some (v, fv, q, lrnorm), k')"
  shows "k' = Suc k
       \<and> custom_polynomial_Lr_norm (sustract_polynomials poly projection_poly) X WX r = Inr lrnorm
       \<and> half_le lrnorm \<bar>fv\<bar>
       \<and> custom_polynomial_init 1 v (degree poly) = Inr q"
proof -
  have pick: "\<bar>ys ! np_argmax (map abs ys)\<bar> = np_max (map abs ys)" if "ys \<noteq> []" for ys :: "real list"
    using np_argmax_max [of "map abs ys"] that by (auto simp: nth_map [symmetric] simp del: nth_map)
  from assms show ?thesis
    by (subst (asm) vec_finder.simps)
       (auto simp: Let_def pick split: sum.splits if_splits prod.splits)
qed

subsection \<open>The greedy loop\<close>

lemma add_vector_some_appends:
  assumes "add_vector d rnd k W fW Q X WX n r poly pp ms inn acc
             = Inr ((W', fW', Q'), Some res, k')"
  shows "\<exists>v fv q. W' = W @ [v] \<and> fW' = fW @ [fv] \<and> Q' = Q @ [q]"
  using assms
  by (cases d) (auto simp: Let_def split: sum.splits option.splits prod.splits if_splits)

lemma greedy_body_step:
  assumes "greedy_body c s = Inr (s', x)"
  shows "(length (st_W s') = Suc (length (st_W s)) \<or> length (st_W s') = length (st_W s))
       \<and> (x = None \<longrightarrow> length (st_W s') < cfg_max_vec c)
       \<and> (x = Some BasisFull \<longrightarrow> cfg_max_vec c \<le> length (st_W s'))
       \<and> (x = Some MaxIterReached \<longrightarrow> length (st_W s') = length (st_W s))
       \<and> x \<noteq> Some ErrorBelowEps"
  using assms unfolding greedy_body_def
  by (auto simp: Let_def split: sum.splits option.splits prod.splits if_splits
      dest!: add_vector_some_appends)

lemma greedy_init_facts:
  assumes "greedy_init rj rnd depth n r poly accu inner eps tol max_iter = Inr (c, s0)"
  shows "cfg_max_vec c = nat (n + int (degree poly) - 1) choose degree poly"
    and "st_W s0 = []" and "1 \<le> n" and "0 < cfg_max_vec c"
proof -
  from assms show mv: "cfg_max_vec c = nat (n + int (degree poly) - 1) choose degree poly"
    and "st_W s0 = []"
    by (auto simp: greedy_init_def Let_def split: if_splits sum.splits prod.splits)
  from assms obtain X WX where "spherical_quadrature rj n (degree poly) = Inr (X, WX)"
    by (auto simp: greedy_init_def Let_def split: if_splits sum.splits prod.splits)
  then show n: "1 \<le> n"
    by (subst (asm) spherical_quadrature.simps) (auto simp: Let_def split: if_splits)
  then have "degree poly \<le> nat (n + int (degree poly) - 1)" by linarith
  then show "0 < cfg_max_vec c" unfolding mv by simp
qed

lemma iterates_below:
  assumes "iterates c s0 s" and "length (st_W s0) < cfg_max_vec c"
  shows "length (st_W s) < cfg_max_vec c"
  using assms
proof (induction rule: iterates.induct)
  case start
  then show ?case by simp
next
  case (pass s s')
  from greedy_body_step [OF pass.hyps(3)] show ?case by simp
qed

lemma greedy_loop_final:
  assumes "greedy_loop c s = Inr (s', reason)" and "length (st_W s) < cfg_max_vec c"
  shows "length (st_W s') \<le> cfg_max_vec c
       \<and> (cfg_max_vec c \<le> length (st_W s') \<longleftrightarrow> reason = BasisFull)"
  using assms
proof (induction c s rule: greedy_loop.induct)
  case (1 c s)
  show ?case
  proof (cases "float_ge (st_error s) (cfg_eps c)")
    case False
    with "1.prems" show ?thesis
      by (subst (asm) greedy_loop.simps) auto
  next
    case True
    with "1.prems"(1) obtain s1 x where body: "greedy_body c s = Inr (s1, x)"
      by (subst (asm) greedy_loop.simps) (auto split: sum.splits)
    note step = greedy_body_step [OF body]
    show ?thesis
    proof (cases x)
      case None
      with True body "1.prems"(1) have "greedy_loop c s1 = Inr (s', reason)"
        by (subst (asm) greedy_loop.simps) simp
      moreover from step None have "length (st_W s1) < cfg_max_vec c" by simp
      ultimately show ?thesis
        using "1.IH" [OF True body refl None] by simp
    next
      case (Some why)
      with True body "1.prems"(1) have "s' = s1" "reason = why"
        by (subst (asm) greedy_loop.simps, simp)+
      with step Some "1.prems"(2) show ?thesis
        by (cases why) auto
    qed
  qed
qed

text \<open>
  C7. In a run of \<open>greedy_approximation\<close> that reaches the loop, with \<open>c\<close> the
  configuration and \<open>s\<close> any state at the head of the loop: the bound \<open>max_vec\<close> is
  \<open>C(n + deg - 1, deg)\<close>; the basis is below the bound; a pass of the loop body leaves
  the basis as long as it was or one longer, and at most as long as the bound; when the
  basis reaches the bound the pass ends with the break of the full basis; and the loop,
  when it returns (from \<open>s\<close>, and so the whole run), returns a basis within the
  bound, at the bound exactly when it ended with that break.
\<close>

theorem basis_size_bounded:
  assumes "greedy_init rj rnd depth n r poly accu inner eps tol max_iter = Inr (c, s0)"
    and "iterates c s0 s"
  shows "cfg_max_vec c = nat (n + int (degree poly) - 1) choose degree poly
       \<and> length (st_W s) < cfg_max_vec c
       \<and> (\<forall>s' x. greedy_body c s = Inr (s', x) \<longrightarrow>
             length (st_W s) \<le> length (st_W s') \<and> length (st_W s') \<le> length (st_W s) + 1
           \<and> length (st_W s') \<le> cfg_max_vec c
           \<and> (cfg_max_vec c \<le> length (st_W s') \<longrightarrow> x = Some BasisFull))
       \<and> (\<forall>s' reason. greedy_loop c s = Inr (s', reason) \<longrightarrow>
             length (st_W s') \<le> cfg_max_vec c
           \<and> (cfg_max_vec c \<le> length (st_W s') \<longleftrightarrow> reason = BasisFull))
       \<and> (\<forall>s' reason.
             greedy_approximation rj rnd depth n r poly accu inner eps tol max_iter
               = Inr (s', reason) \<longrightarrow>
             length (st_W s') \<le> cfg_max_vec c
           \<and> (cfg_max_vec c \<le> length (st_W s') \<longleftrightarrow> reason = BasisFull))"
proof -
  note init = greedy_init_facts [OF assms(1)]
  from init(2,4) have "length (st_W s0) < cfg_max_vec c" by simp
  with assms(2) have below: "length (st_W s) < cfg_max_vec c" by (rule iterates_below)
  have "length (st_W s) \<le> length (st_W s') \<and> length (st_W s') \<le> length (st_W s) + 1
           \<and> length (st_W s') \<le> cfg_max_vec c
           \<and> (cfg_max_vec c \<le> length (st_W s') \<longrightarrow> x = Some BasisFull)"
    if "greedy_body c s = Inr (s', x)" for s' x
  proof -
    note step = greedy_body_step [OF that]
    show ?thesis
    proof (cases x)
      case None
      with step below show ?thesis by auto
    next
      case (Some why)
      with step below show ?thesis by (cases why) auto
    qed
  qed
  moreover have "length (st_W s') \<le> cfg_max_vec c
           \<and> (cfg_max_vec c \<le> length (st_W s') \<longleftrightarrow> reason = BasisFull)"
    if "greedy_approximation rj rnd depth n r poly accu inner eps tol max_iter
          = Inr (s', reason)" for s' reason
  proof -
    from that assms(1) have "greedy_loop c s0 = Inr (s', reason)"
      by (simp add: greedy_approximation_def)
    then show ?thesis
      using \<open>length (st_W s0) < cfg_max_vec c\<close> by (rule greedy_loop_final)
  qed
  moreover note init(1) below greedy_loop_final [OF _ below]
  ultimately show ?thesis by blast
qed

subsection \<open>A run on the circle\<close>

lemma half_sqrt: "sqrt (1 / 2) = sqrt 2 / 2"
  by (rule real_sqrt_unique) (simp_all add: power2_eq_square)

lemma quadrature_2_2: "spherical_quadrature chebyshev_two 2 2 = Inr (diagonal_nodes, axis_weights)"
proof -
  have "spherical_quadrature chebyshev_two (2 - 1) 2 = Inr ([[1], [- 1]], [1, 1])"
    by (simp add: spherical_quadrature_one)
  moreover have "chebyshev_two 2 ((real_of_int 2 - 3) / 2) ((real_of_int 2 - 3) / 2)
      = Inr ([- sqrt 2 / 2, sqrt 2 / 2], [pi / 2, pi / 2])"
    by (simp add: chebyshev_two_def)
  ultimately have "spherical_quadrature chebyshev_two 2 2
       = Inr (map custom_flatten (List.product [- sqrt 2 / 2, sqrt 2 / 2] [[1], [- 1]]),
              map (\<lambda>comb. fst comb * snd comb) (List.product [pi / 2, pi / 2] [1, 1]))"
    by (intro spherical_quadrature_step) simp_all
  then show ?thesis
    by (simp add: custom_flatten_def diagonal_nodes_def axis_weights_def power_divide half_sqrt)
qed

lemma example_fields:
  "degree circle_poly = 2" "num_var circle_poly = 2"
  "degree x2_square = 2" "num_var x2_square = 2"
  by (simp_all add: circle_poly_def add_polynomials_def x1_square_def x2_square_def Let_def)

lemma x2_square_init: "custom_polynomial_init 1 [0, 1] 2 = Inr x2_square"
  by (simp add: custom_polynomial_init_def x2_square_def Let_def numeral_2_eq_2)

lemma eval_residual_start:
  "evaluate_pol (sustract_polynomials circle_poly (sustract_polynomials circle_poly circle_poly)) [a, b]
     = Inr (a\<^sup>2 + b\<^sup>2)"
  by (simp add: circle_poly_def x1_square_def x2_square_def sustract_polynomials_def
      add_polynomials_def evaluate_pol_def evaluate_def lambdify_def lift2_def Let_def)

lemma eval_residual_first:
  "evaluate_pol (sustract_polynomials circle_poly first_projection) [a, b] = Inr (a\<^sup>2)"
  by (simp add: circle_poly_def first_projection_def x1_square_def x2_square_def
      sustract_polynomials_def add_polynomials_def multiply_constant_def
      evaluate_pol_def evaluate_def lambdify_def lift2_def Let_def)

lemma norm_residual_start:
  "custom_polynomial_Lr_norm
     (sustract_polynomials circle_poly (sustract_polynomials circle_poly circle_poly))
     diagonal_nodes axis_weights 2 = Inr (Fin 1)"
proof -
  have nv: "int (num_var (sustract_polynomials circle_poly
      (sustract_polynomials circle_poly circle_poly))) - 1 = 1"
    by (simp add: sustract_polynomials_def Let_def example_fields)
  have ev: "parallelized_evaluation (sustract_polynomials circle_poly
      (sustract_polynomials circle_poly circle_poly)) diagonal_nodes = Inr [1, 1, 1, 1]"
    by (simp add: diagonal_nodes_def eval_residual_start power_divide)
  show ?thesis
    unfolding custom_polynomial_Lr_norm_def nv sphere_surface_area_1 ev
    by (simp add: np_multiply_def pow_inv_def Let_def axis_weights_def)
qed

lemma root_quarter: "root 2 (1 / 4) = 1 / 2"
proof -
  have "sqrt (1 / 4) = 1 / 2"
    by (rule real_sqrt_unique) (simp_all add: power2_eq_square)
  then show ?thesis by (simp add: sqrt_def)
qed

lemma norm_residual_first:
  "custom_polynomial_Lr_norm (sustract_polynomials circle_poly first_projection)
     diagonal_nodes axis_weights 2 = Inr (Fin (1 / 2))"
proof -
  have nv: "int (num_var (sustract_polynomials circle_poly first_projection)) - 1 = 1"
    by (simp add: sustract_polynomials_def Let_def example_fields)
  have ev: "parallelized_evaluation (sustract_polynomials circle_poly first_projection)
      diagonal_nodes = Inr [1 / 2, 1 / 2, 1 / 2, 1 / 2]"
    by (simp add: diagonal_nodes_def eval_residual_first power_divide)
  show ?thesis
    unfolding custom_polynomial_Lr_norm_def nv sphere_surface_area_1 ev
    by (simp add: np_multiply_def pow_inv_def Let_def axis_weights_def power_divide root_quarter)
qed

lemma vec_finder_pass_one:
  assumes "0 \<le> ms"
  shows "vec_finder two_batches 0 2 2 circle_poly (sustract_polynomials circle_poly circle_poly)
           accu ms inner [] diagonal_nodes axis_weights tries
         = Inr (Some ([0, 1], 1, x2_square, Fin 1), Suc 0)"
  using assms
  by (subst vec_finder.simps)
     (simp add: norm_residual_start Let_def sample_spherical_def two_batches_def
       eval_residual_start np_max_def np_argmax_def x2_square_init example_fields)

lemma vec_finder_pass_two:
  assumes "0 \<le> ms"
  shows "vec_finder two_batches (Suc k) 2 2 circle_poly first_projection
           accu ms (4 / 5) [[0, 1]] diagonal_nodes axis_weights tries
         = Inr (Some ([1, 0], 1, x1_square, Fin (1 / 2)), Suc (Suc k))"
  using assms
  by (subst vec_finder.simps)
     (simp add: norm_residual_first Let_def sample_spherical_def two_batches_def
       eval_residual_first np_max_def np_argmax_def x1_square_init example_fields
       diversity_filter_def dot_def)

lemma add_vector_pass_one:
  assumes "0 \<le> ms"
  shows "add_vector (Suc d) two_batches 0 [] [] [] diagonal_nodes axis_weights 2 2 circle_poly
           (sustract_polynomials circle_poly circle_poly) ms inner accu
         = Inr (([[0, 1]], [1], [x2_square]), Some (Fin 1, first_projection), Suc 0)"
  by (simp add: vec_finder_pass_one [OF assms] Let_def example_fields gram_def dot_def
      matrix_rank_def eliminate_def matrix_inv_def drop_nth_def mat_vec_def
      first_projection_def)

lemma add_vector_pass_two:
  assumes "0 \<le> ms"
  shows "add_vector (Suc d) two_batches (Suc k) [[0, 1]] [1] [x2_square] diagonal_nodes
           axis_weights 2 2 circle_poly first_projection ms (4 / 5) accu
         = Inr (([[0, 1], [1, 0]], [1, 1], [x2_square, x1_square]),
                Some (Fin (1 / 2), second_projection), Suc (Suc k))"
  by (simp add: vec_finder_pass_two [OF assms] Let_def example_fields gram_def dot_def
      matrix_rank_def eliminate_def matrix_inv_def drop_nth_def mat_vec_def
      second_projection_def)

lemma greedy_body_pass_one:
  assumes "0 \<le> ms"
  shows "greedy_body (example_config d ms) state_start = Inr (state_first, None)"
  by (simp add: greedy_body_def example_config_def state_start_def state_first_def
      add_vector_pass_one [OF assms] Let_def del: add_vector.simps)

lemma greedy_body_pass_two:
  assumes "0 \<le> ms"
  shows "greedy_body (example_config d ms) state_first = Inr (state_second, None)"
  by (simp add: greedy_body_def example_config_def state_first_def state_second_def
      add_vector_pass_two [OF assms] Let_def numeral_2_eq_2 [symmetric] del: add_vector.simps)

lemma example_sample_size:
  "\<exists>sz. 0 \<le> sz \<and> sample_size 2 2 2 (19 / 20) = Inr sz"
proof -
  let ?b = "float_pow 5 (1 / 4)"
  have b1: "?b \<le> 5"
    using powr_mono [of "1 / 4" 1 "5::real"] by (simp add: float_pow_def)
  have b0: "0 \<le> ?b" by (rule float_pow_nonneg)
  have a: "python_pow (real (2 * 2)) (real 2 / 2) = Inr 4"
    by (simp add: python_pow_def float_pow_def double_limit_def)
  have "(5::nat) choose 4 = 5" by (simp add: eval_nat_numeral)
  then have b: "python_pow (real (nat (int (2 * 2) + 2 - 1) choose (2 * 2))) (1 / (2 * real 2))
    = Inr ?b"
    using b1 by (simp add: python_pow_def double_limit_def)
  let ?y = "(min 4 ?b) ^ (2 * 2)"
  have y0: "0 \<le> ?y" using b0 by simp
  have "?y \<le> 4 ^ (2 * 2)"
    using b0 by (intro power_mono) simp_all
  then have y1: "?y \<le> 256" by simp
  let ?t = "- ln (1 - 19 / 20 :: real)"
  have t: "?t = ln 20" using ln_div [of 1 "20::real"] by simp
  have t0: "0 \<le> ?t" unfolding t by simp
  have t1: "?t \<le> 19" unfolding t using ln_le_minus_one [of "20::real"] by simp
  have ty0: "0 \<le> ?t * ?y" using t0 y0 by (rule mult_nonneg_nonneg)
  have "?t * ?y \<le> 19 * 256" using t1 y1 y0 by (intro mult_mono) simp_all
  moreover have "(19 * 256 :: real) < double_limit" by (simp add: double_limit_def)
  ultimately have ty1: "\<bar>?t * ?y\<bar> < double_limit" using ty0 by linarith
  have "(256 :: real) < double_limit" by (simp add: double_limit_def)
  with y1 have y2: "?y < double_limit" by linarith
  have "sample_size 2 2 2 (19 / 20) = Inr \<lceil>?t * ?y\<rceil>"
    using a b y2 ty1 by (intro sample_size_returns) simp_all
  moreover have "0 \<le> \<lceil>?t * ?y\<rceil>" using ty0 by linarith
  ultimately show ?thesis by blast
qed

lemma example_max_size_nonneg: "0 \<le> example_max_size"
  using example_sample_size by (auto simp: example_max_size_def)


lemma greedy_init_example:
  "greedy_init chebyshev_two two_batches 1000 2 2 circle_poly (19 / 20) (4 / 5) (3 / 10) (3 / 5) 1000
     = Inr (example_config 999 example_max_size, state_start)"
proof -
  from example_sample_size obtain sz where sz: "sample_size 2 2 2 (19 / 20) = Inr sz"
    by blast
  then have "example_max_size = min sz 100000" by (simp add: example_max_size_def)
  note sz = sz this
  have "(3::nat) choose 2 = 3" by (simp add: eval_nat_numeral)
  then show ?thesis
    by (simp add: greedy_init_def example_fields quadrature_2_2 sz Let_def example_config_def
        state_start_def)
qed

lemma example_config_fields:
  "cfg_tol (example_config d ms) = 3 / 5" "cfg_max_vec (example_config d ms) = 3"
  "cfg_eps (example_config d ms) = 3 / 10"
  by (simp_all add: example_config_def)

lemma greedy_body_stagnant:
  assumes "add_vector (cfg_depth c) (cfg_rnd c) (st_draws s) (st_W s) (st_fW s) (st_Q s)
             (cfg_X c) (cfg_WX c) (cfg_n c) (cfg_r c) (cfg_poly c) (st_projection_poly s)
             (cfg_max_size c) (cfg_inner c) (cfg_accu c)
           = Inr (bas, Some (error', new_projection_poly), k)"
    and "float_le (abs_diff (st_error s) error') (cfg_tol c)"
  shows "\<exists>x. greedy_body c s
           = Inr (s\<lparr>st_projection_poly := new_projection_poly, st_draws := k,
                     st_iteration := st_iteration s + 1\<rparr>, x)"
proof -
  obtain W' fW' Q' where bas: "bas = (W', fW', Q')" by (cases bas) auto
  from add_vector_some_appends [OF assms(1) [unfolded bas]]
  have "butlast W' = st_W s" "butlast fW' = st_fW s" "butlast Q' = st_Q s" by auto
  with assms show ?thesis
    unfolding greedy_body_def bas by (simp add: Let_def)
qed

text \<open>
  C4. After a pass whose improvement is at most the tolerance, the basis, the error
  and the projection are to be what they were before the pass. The code restores
  \<open>error\<close>, \<open>W\<close>, \<open>fW\<close> and \<open>Q\<close>, but it has assigned the new projection to
  \<open>projection_poly\<close> before the test and leaves it there. In the run on the circle
  the second pass improves the error from 1 to 1/2, within the tolerance 0.6: the
  basis stays \<open>[(0, 1)]\<close> and the error stays 1, and the projection changes from
  \<open>1 * x2^2\<close> to \<open>1 * x2^2 + 1 * x1^2\<close>, which takes another value at \<open>(1, 0)\<close>.
\<close>

theorem stagnant_pass_keeps_new_projection:
  "greedy_init chebyshev_two two_batches 1000 2 2 circle_poly (19 / 20) (4 / 5) (3 / 10) (3 / 5) 1000
     = Inr (example_config 999 example_max_size, state_start)
   \<and> greedy_body (example_config 999 example_max_size) state_start = Inr (state_first, None)
   \<and> greedy_body (example_config 999 example_max_size) state_first = Inr (state_second, None)
   \<and> float_le (abs_diff (st_error state_first) (Fin (1 / 2)))
        (cfg_tol (example_config 999 example_max_size))
   \<and> st_W state_second = st_W state_first \<and> st_fW state_second = st_fW state_first
   \<and> st_Q state_second = st_Q state_first \<and> st_error state_second = st_error state_first
   \<and> st_iteration state_second = st_iteration state_first + 1
   \<and> st_projection_poly state_first = multiply_constant x2_square 1
   \<and> st_projection_poly state_second
       = add_polynomials (multiply_constant x2_square 1) (multiply_constant x1_square 1)
   \<and> evaluate (st_projection_poly state_first) [1, 0] = Inr 0
   \<and> evaluate (st_projection_poly state_second) [1, 0] = Inr 1"
proof -
  have "evaluate first_projection [1, 0] = Inr 0"
    by (simp add: first_projection_def x2_square_def multiply_constant_def evaluate_def
        lambdify_def lift2_def Let_def)
  moreover have "evaluate second_projection [1, 0] = Inr 1"
    by (simp add: second_projection_def x1_square_def x2_square_def multiply_constant_def
        add_polynomials_def evaluate_def lambdify_def lift2_def Let_def)
  ultimately show ?thesis
    using greedy_init_example greedy_body_pass_one [OF example_max_size_nonneg, of 999]
      greedy_body_pass_two [OF example_max_size_nonneg, of 999]
    by (simp add: state_first_def state_second_def example_config_fields first_projection_def
        second_projection_def)
qed

theorem basis_size_bounded_witness:
  "greedy_init chebyshev_two two_batches 1000 2 2 circle_poly (19 / 20) (4 / 5) (3 / 10) (3 / 5) 1000
     = Inr (example_config 999 example_max_size, state_start)
   \<and> iterates (example_config 999 example_max_size) state_start state_first
   \<and> cfg_max_vec (example_config 999 example_max_size) = 3
   \<and> length (st_W state_first) < cfg_max_vec (example_config 999 example_max_size)
   \<and> greedy_body (example_config 999 example_max_size) state_first = Inr (state_second, None)
   \<and> length (st_W state_second) \<le> length (st_W state_first) + 1
   \<and> length (st_W state_second) \<le> cfg_max_vec (example_config 999 example_max_size)"
proof -
  let ?c = "example_config 999 example_max_size"
  have ge: "float_ge (st_error state_start) (cfg_eps ?c)"
    by (simp add: state_start_def example_config_fields)
  have it: "iterates ?c state_start state_first"
    by (rule iterates.pass [OF iterates.start ge
          greedy_body_pass_one [OF example_max_size_nonneg]])
  note two = greedy_body_pass_two [OF example_max_size_nonneg, of 999]
  from basis_size_bounded [OF greedy_init_example it]
  have "cfg_max_vec ?c = nat (2 + int (degree circle_poly) - 1) choose degree circle_poly"
    and "length (st_W state_first) < cfg_max_vec ?c"
    and "\<forall>s' x. greedy_body ?c state_first = Inr (s', x) \<longrightarrow>
             length (st_W state_first) \<le> length (st_W s')
           \<and> length (st_W s') \<le> length (st_W state_first) + 1
           \<and> length (st_W s') \<le> cfg_max_vec ?c
           \<and> (cfg_max_vec ?c \<le> length (st_W s') \<longrightarrow> x = Some BasisFull)"
    by blast+
  with two greedy_init_example it show ?thesis
    by (simp add: example_config_fields)
qed

subsection \<open>A singular Gram matrix\<close>

lemma sphere_surface_area_2: "sphere_surface_area 2 = Inr (4 * pi)"
  by (simp add: sphere_surface_area_def ball_volume.simps [of 3] ball_volume.simps [of 1])

lemma rank_one_init: "1 < length v \<Longrightarrow> custom_polynomial_init 1 v 2 = Inr (rank_one v)"
  by (cases v) (simp_all add: custom_polynomial_init_def rank_one_def Let_def)

lemma x1_square3_fields: "degree x1_square3 = 2" "num_var x1_square3 = 3"
  by (simp_all add: x1_square3_def)

lemma eval_residual3:
  "evaluate_pol (sustract_polynomials x1_square3 (sustract_polynomials x1_square3 x1_square3)) [a, b, c]
     = Inr (a\<^sup>2)"
  by (simp add: x1_square3_def sustract_polynomials_def evaluate_pol_def evaluate_def
      lambdify_def lift2_def Let_def)

lemma norm_residual3:
  "custom_polynomial_Lr_norm
     (sustract_polynomials x1_square3 (sustract_polynomials x1_square3 x1_square3))
     octahedron_nodes octahedron_weights 2 = Inr (Fin (root 2 (1 / 3)))"
proof -
  have nv: "int (num_var (sustract_polynomials x1_square3
      (sustract_polynomials x1_square3 x1_square3))) - 1 = 2"
    by (simp add: sustract_polynomials_def Let_def x1_square3_fields)
  have ev: "parallelized_evaluation (sustract_polynomials x1_square3
      (sustract_polynomials x1_square3 x1_square3)) octahedron_nodes = Inr [1, 1, 0, 0, 0, 0]"
    by (simp add: octahedron_nodes_def eval_residual3)
  show ?thesis
    unfolding custom_polynomial_Lr_norm_def nv sphere_surface_area_2 ev
    by (simp add: np_multiply_def pow_inv_def Let_def octahedron_weights_def)
qed

lemma root_third: "root 2 (1 / 3) * 25 \<le> (18::real)" "root 2 (1 / 3) \<le> (18 / 25 ::real)"
proof -
  have "sqrt (1 / 3) \<le> sqrt ((18 / 25)\<^sup>2)"
    by (subst real_sqrt_le_iff) (simp add: power2_eq_square)
  then have "root 2 (1 / 3) \<le> (18 / 25 :: real)"
    by (simp add: sqrt_def [symmetric])
  then show "root 2 (1 / 3) \<le> (18 / 25 ::real)" "root 2 (1 / 3) * 25 \<le> (18::real)" by simp_all
qed

lemma candidate_init:
  "custom_polynomial_init 1 planar_candidate 2 = Inr (rank_one planar_candidate)"
  "custom_polynomial_init 1 lifted_candidate 2 = Inr (rank_one lifted_candidate)"
  by (simp_all add: rank_one_init planar_candidate_def lifted_candidate_def)

lemma candidate_values:
  "evaluate_pol (sustract_polynomials x1_square3 (sustract_polynomials x1_square3 x1_square3))
     planar_candidate = Inr (9 / 25)"
  "evaluate_pol (sustract_polynomials x1_square3 (sustract_polynomials x1_square3 x1_square3))
     lifted_candidate = Inr (9 / 25)"
  by (simp_all add: planar_candidate_def lifted_candidate_def eval_residual3 power_divide)

lemma candidate_filter:
  "diversity_filter [planar_candidate] planar_W (9 / 10) = [planar_candidate]"
  "diversity_filter [lifted_candidate] planar_W (9 / 10) = [lifted_candidate]"
  by (simp_all add: diversity_filter_def planar_candidate_def lifted_candidate_def planar_W_def
      dot_def np_max_def)

lemma planar_W_nonempty: "planar_W \<noteq> []"
  by (simp add: planar_W_def)

lemma vec_finder_planar:
  assumes "0 \<le> ms"
  shows "vec_finder planar_then_lifted 0 3 2 x1_square3 (sustract_polynomials x1_square3 x1_square3)
           accu ms (9 / 10) planar_W octahedron_nodes octahedron_weights tries
         = Inr (Some (planar_candidate, 9 / 25, rank_one planar_candidate, Fin (root 2 (1 / 3))),
                Suc 0)"
  using assms
  by (subst vec_finder.simps)
     (simp add: norm_residual3 Let_def sample_spherical_def planar_then_lifted_def
       candidate_values candidate_filter candidate_init planar_W_nonempty np_max_def
       np_argmax_def x1_square3_fields root_third)

lemma vec_finder_lifted:
  assumes "0 \<le> ms"
  shows "vec_finder planar_then_lifted (Suc k) 3 2 x1_square3 (sustract_polynomials x1_square3 x1_square3)
           accu ms (9 / 10) planar_W octahedron_nodes octahedron_weights tries
         = Inr (Some (lifted_candidate, 9 / 25, rank_one lifted_candidate, Fin (root 2 (1 / 3))),
                Suc (Suc k))"
  using assms
  by (subst vec_finder.simps)
     (simp add: norm_residual3 Let_def sample_spherical_def planar_then_lifted_def
       candidate_values candidate_filter candidate_init planar_W_nonempty np_max_def
       np_argmax_def x1_square3_fields root_third)

lemma gram_planar:
  "gram (planar_W @ [planar_candidate]) 2
     = [[1, 0, 9 / 25, 9 / 25], [0, 1, 16 / 25, 16 / 25],
        [9 / 25, 16 / 25, 1, 49 / 625], [9 / 25, 16 / 25, 49 / 625, 1]]"
  by (simp add: gram_def planar_W_def planar_candidate_def dot_def power_divide)

lemma gram_lifted:
  "gram (planar_W @ [lifted_candidate]) 2
     = [[1, 0, 9 / 25, 9 / 25], [0, 1, 16 / 25, 0],
        [9 / 25, 16 / 25, 1, 81 / 625], [9 / 25, 0, 81 / 625, 1]]"
  by (simp add: gram_def planar_W_def lifted_candidate_def dot_def power_divide)

lemma rank_planar: "matrix_rank (gram (planar_W @ [planar_candidate]) 2) = 3"
  unfolding gram_planar
  by (simp add: matrix_rank_def eliminate_def eval_nat_numeral)

lemma rank_lifted: "matrix_rank (gram (planar_W @ [lifted_candidate]) 2) = 4"
  unfolding gram_lifted
  by (simp add: matrix_rank_def eliminate_def eval_nat_numeral)

lemma det_lifted: "det (gram (planar_W @ [lifted_candidate]) 2) = 156672 / 390625"
  unfolding gram_lifted
  by (simp add: drop_nth_def eval_nat_numeral)

lemma gram_length: "length (gram (planar_W @ [v]) 2) = 4"
  by (simp add: gram_def planar_W_def)

lemma add_vector_singular:
  assumes "vec_finder rnd k n r poly pp accu ms inner W X WX 1 = Inr (Some (v, fv, q, lrnorm), k')"
    and "matrix_rank (gram (W @ [v]) (degree poly)) \<noteq> length (gram (W @ [v]) (degree poly))"
  shows "add_vector (Suc d) rnd k W fW Q X WX n r poly pp ms inner accu
       = (case add_vector d rnd k' W fW Q X WX n r poly pp ms inner accu of
            Inl e \<Rightarrow> Inl e
          | Inr (bas, ignored, k'') \<Rightarrow> Inr (bas, None, k''))"
    and "add_vector (Suc d) rnd k W fW Q X WX n r poly pp ms inner accu \<noteq> Inr (bas, Some res, k'')"
  using assms by (auto simp: Let_def split: sum.splits prod.splits)

lemma add_vector_regular:
  assumes "vec_finder rnd k n r poly pp accu ms inner W X WX 1 = Inr (Some (v, fv, q, lrnorm), k')"
    and "matrix_rank (gram (W @ [v]) (degree poly)) = length (gram (W @ [v]) (degree poly))"
    and "det (gram (W @ [v]) (degree poly)) \<noteq> 0"
    and "length fW = length W" and "length Q = length W"
  shows "\<exists>proj. add_vector (Suc d) rnd k W fW Q X WX n r poly pp ms inner accu
           = Inr ((W @ [v], fW @ [fv], Q @ [q]), Some (lrnorm, proj), k')"
  using assms by (simp add: Let_def matrix_inv_def gram_def mat_vec_def)

lemma add_vector_planar_example:
  assumes "0 \<le> ms"
  shows "add_vector (Suc (Suc d)) planar_then_lifted 0 planar_W planar_fW planar_Q
           octahedron_nodes octahedron_weights 3 2 x1_square3
           (sustract_polynomials x1_square3 x1_square3) ms (9 / 10) accu
         = Inr ((planar_W @ [lifted_candidate], planar_fW @ [9 / 25],
                 planar_Q @ [rank_one lifted_candidate]), None, Suc (Suc 0))"
proof -
  let ?zero = "sustract_polynomials x1_square3 x1_square3"
  note first = vec_finder_planar [OF assms, of accu 1]
  note second = vec_finder_lifted [OF assms, of 0 accu 1]
  have "\<exists>proj. add_vector (Suc d) planar_then_lifted (Suc 0) planar_W planar_fW planar_Q
         octahedron_nodes octahedron_weights 3 2 x1_square3 ?zero ms (9 / 10) accu
       = Inr ((planar_W @ [lifted_candidate], planar_fW @ [9 / 25],
               planar_Q @ [rank_one lifted_candidate]), Some (Fin (root 2 (1 / 3)), proj),
              Suc (Suc 0))"
  proof (rule add_vector_regular [OF second])
    show "matrix_rank (gram (planar_W @ [lifted_candidate]) (degree x1_square3))
        = length (gram (planar_W @ [lifted_candidate]) (degree x1_square3))"
      by (simp add: x1_square3_fields rank_lifted gram_length)
    show "det (gram (planar_W @ [lifted_candidate]) (degree x1_square3)) \<noteq> 0"
      by (simp add: x1_square3_fields det_lifted)
    show "length planar_fW = length planar_W" "length planar_Q = length planar_W"
      by (simp_all add: planar_W_def planar_fW_def planar_Q_def)
  qed
  then obtain proj where inner:
    "add_vector (Suc d) planar_then_lifted (Suc 0) planar_W planar_fW planar_Q
         octahedron_nodes octahedron_weights 3 2 x1_square3 ?zero ms (9 / 10) accu
       = Inr ((planar_W @ [lifted_candidate], planar_fW @ [9 / 25],
               planar_Q @ [rank_one lifted_candidate]), Some (Fin (root 2 (1 / 3)), proj),
              Suc (Suc 0))" ..
  have singular: "matrix_rank (gram (planar_W @ [planar_candidate]) (degree x1_square3))
      \<noteq> length (gram (planar_W @ [planar_candidate]) (degree x1_square3))"
    by (simp add: x1_square3_fields rank_planar gram_length)
  show ?thesis
    by (subst add_vector_singular(1) [OF first singular]) (simp add: inner del: add_vector.simps)
qed

text \<open>
  C3. On a rank-deficient Gram matrix \<open>add_vector\<close> is to ask for another candidate
  and still return \<open>(W, fW, Q, error, projection)\<close>. The code calls itself and drops
  the result: the call returns \<open>None\<close>. Here the first candidate lies in the plane of
  the basis, the Gram matrix of the four directions has rank 3, and the second
  candidate is regular: the nested call appends the second candidate to the lists of
  the caller and builds a projection, and the outer call returns \<open>None\<close>.
\<close>

theorem add_vector_singular_returns_none:
  "vec_finder planar_then_lifted 0 3 2 x1_square3 (sustract_polynomials x1_square3 x1_square3)
       (19 / 20) 1 (9 / 10) planar_W octahedron_nodes octahedron_weights 1
     = Inr (Some (planar_candidate, 9 / 25, rank_one planar_candidate, Fin (root 2 (1 / 3))), 1)
   \<and> length (gram (planar_W @ [planar_candidate]) 2) = 4
   \<and> matrix_rank (gram (planar_W @ [planar_candidate]) 2) = 3
   \<and> add_vector 1000 planar_then_lifted 0 planar_W planar_fW planar_Q
         octahedron_nodes octahedron_weights 3 2 x1_square3
         (sustract_polynomials x1_square3 x1_square3) 1 (9 / 10) (19 / 20)
     = Inr ((planar_W @ [lifted_candidate], planar_fW @ [9 / 25],
             planar_Q @ [rank_one lifted_candidate]), None, 2)"
proof -
  have ms: "(0::int) \<le> 1" by simp
  have depth: "Suc (Suc 998) = 1000" by simp
  from vec_finder_planar [OF ms, of "19 / 20" 1] gram_length [of planar_candidate] rank_planar
    add_vector_planar_example [OF ms, of 998 "19 / 20", unfolded depth]
  show ?thesis
    by (simp del: add_vector.simps)
qed

end
